theory Spec2Isabelle
  imports Complex_Main
begin

section \<open>Python strings\<close>

text \<open>
  A Python \<open>str\<close> is modelled as a \<^typ>\<open>string\<close>; a character stands for the code point
  of the same number, so the modelled alphabet is the first 256 code points. The
  library functions used by the readers are transcribed for that alphabet.
\<close>

definition py_isspace :: "char \<Rightarrow> bool" where
  \<comment> \<open>the characters removed by \<open>str.strip()\<close>: those with \<open>str.isspace()\<close>\<close>
  "py_isspace c =
     (let n = (of_char c :: nat)
      in (9 \<le> n \<and> n \<le> 13) \<or> (28 \<le> n \<and> n \<le> 32) \<or> n = 133 \<or> n = 160)"

definition strip :: "string \<Rightarrow> string" where
  "strip s = rev (dropWhile py_isspace (rev (dropWhile py_isspace s)))"

definition strip_chars :: "string \<Rightarrow> string \<Rightarrow> string" where
  \<comment> \<open>\<open>s.strip(chars)\<close>\<close>
  "strip_chars chars s =
     rev (dropWhile (\<lambda>c. c \<in> set chars) (rev (dropWhile (\<lambda>c. c \<in> set chars) s)))"

definition lower_char :: "char \<Rightarrow> char" where
  "lower_char c =
     (let n = (of_char c :: nat)
      in if (65 \<le> n \<and> n \<le> 90) \<or> (192 \<le> n \<and> n \<le> 222 \<and> n \<noteq> 215)
         then char_of (n + 32) else c)"

definition lower :: "string \<Rightarrow> string" where
  "lower s = map lower_char s"

fun startswith :: "string \<Rightarrow> string \<Rightarrow> bool" where
  "startswith s [] = True"
| "startswith [] (p # ps) = False"
| "startswith (c # cs) (p # ps) = (c = p \<and> startswith cs ps)"

fun py_in :: "string \<Rightarrow> string \<Rightarrow> bool" where
  \<comment> \<open>\<open>sub in s\<close>\<close>
  "py_in sub [] = (sub = [])"
| "py_in sub (c # cs) = (startswith (c # cs) sub \<or> py_in sub cs)"

fun remove_all :: "string \<Rightarrow> string \<Rightarrow> string" where
  \<comment> \<open>\<open>s.replace(pat, '')\<close> for a non-empty \<open>pat\<close>: occurrences are found left to right
      and do not overlap\<close>
  "remove_all pat [] = []"
| "remove_all pat (c # cs) =
     (if startswith (c # cs) pat then remove_all pat (drop (length pat - 1) cs)
      else c # remove_all pat cs)"

section \<open>The standard library's UUID parser\<close>

datatype py_error =
    ValueError | KeyError string | IndexError | AttributeError | TypeError
  | UnicodeDecodeError | UnicodeError | LookupError | OSError | XMLSyntaxError

definition digit_value :: "char \<Rightarrow> nat" where
  \<comment> \<open>the digit table of \<open>int(s, base)\<close>; 37 marks a character that is no digit\<close>
  "digit_value c =
     (let n = (of_char c :: nat)
      in if 48 \<le> n \<and> n \<le> 57 then n - 48
         else if 97 \<le> n \<and> n \<le> 122 then n - 87
         else if 65 \<le> n \<and> n \<le> 90 then n - 55
         else 37)"

definition int_isspace :: "char \<Rightarrow> bool" where
  \<comment> \<open>white space skipped by \<open>int(s, base)\<close> around the literal\<close>
  "int_isspace c =
     (let n = (of_char c :: nat) in (9 \<le> n \<and> n \<le> 13) \<or> n = 32 \<or> n = 133 \<or> n = 160)"

fun scan_digits :: "string \<Rightarrow> bool \<Rightarrow> int \<Rightarrow> nat \<Rightarrow> (int \<times> nat \<times> string) option" where
  \<comment> \<open>the digit loop of base 16: digits with single underscores between them;
      the flag says that the previous character was an underscore\<close>
  "scan_digits [] prev acc n = (if prev then None else Some (acc, n, []))"
| "scan_digits (c # cs) prev acc n =
     (if c = CHR ''_'' then (if prev then None else scan_digits cs True acc n)
      else if digit_value c < 16
           then scan_digits cs False (16 * acc + int (digit_value c)) (Suc n)
      else if prev then None else Some (acc, n, c # cs))"

definition py_int16 :: "string \<Rightarrow> int option" where
  \<comment> \<open>\<open>int(s, 16)\<close>; \<open>None\<close> stands for the ValueError\<close>
  "py_int16 s =
     (let s1 = dropWhile int_isspace s;
          neg = (s1 \<noteq> [] \<and> hd s1 = CHR ''-'');
          s2 = (if s1 \<noteq> [] \<and> (hd s1 = CHR ''+'' \<or> hd s1 = CHR ''-'') then tl s1 else s1);
          s3 = (if startswith s2 ''0x'' \<or> startswith s2 ''0X''
                then (let r = drop 2 s2 in if startswith r ''_'' then tl r else r)
                else s2)
      in if startswith s3 ''_'' then None
         else (case scan_digits s3 False 0 0 of
                 None \<Rightarrow> None
               | Some (v, n, rest) \<Rightarrow>
                   if n = 0 then None
                   else if dropWhile int_isspace rest \<noteq> [] then None
                   else Some (if neg then - v else v)))"

definition UUID :: "string \<Rightarrow> py_error + int" where
  \<comment> \<open>\<open>uuid.UUID(hex)\<close>: the 128-bit value, or the ValueError\<close>
  "UUID hex =
     (let h1 = remove_all ''uuid:'' (remove_all ''urn:'' hex);
          h2 = filter (\<lambda>c. c \<noteq> CHR ''-'') (strip_chars ''{}'' h1)
      in if length h2 \<noteq> 32 then Inl ValueError
         else (case py_int16 h2 of
                 None \<Rightarrow> Inl ValueError
               | Some i \<Rightarrow> if 0 \<le> i \<and> i < 2 ^ 128 then Inr i else Inl ValueError))"

section \<open>csv_reader: validation of a row\<close>

definition is_valid_uuid :: "string \<Rightarrow> bool" where
  "is_valid_uuid val = (case UUID val of Inr _ \<Rightarrow> True | Inl _ \<Rightarrow> False)"

text \<open>
  A row is a dictionary from field names to cell values, kept as an association list
  in insertion order with distinct keys. A cell is \<open>None\<close> where the record was shorter
  than the header.
\<close>

type_synonym row = "(string \<times> string option) list"

definition row_get :: "row \<Rightarrow> string \<Rightarrow> string option" where
  \<comment> \<open>\<open>row.get(field)\<close>: \<open>None\<close> for an absent key and for a \<open>None\<close> cell\<close>
  "row_get r field = (case map_of r field of None \<Rightarrow> None | Some v \<Rightarrow> v)"

text \<open>The messages are the source's f-strings with their fixed text rendered in English.\<close>

fun check_required_fields :: "row \<Rightarrow> string list \<Rightarrow> bool \<times> string" where
  "check_required_fields r [] = (True, [])"
| "check_required_fields r (field # required) =
     (case row_get r field of
        None \<Rightarrow> (False, ''Field '' @ field @ '' is absent or empty'')
      | Some val \<Rightarrow>
          if strip val = [] then (False, ''Field '' @ field @ '' is absent or empty'')
          else if py_in ''_uid'' (lower field) \<and> \<not> is_valid_uuid (strip val)
               then (False, ''Field '' @ field @ '' is not a valid UUID: '' @ strip val)
          else check_required_fields r required)"

text \<open>
  The form the specification names: 32 hexadecimal digits laid out in groups of
  8, 4, 4, 4 and 12 separated by dashes.
\<close>

definition is_hex_digit :: "char \<Rightarrow> bool" where
  "is_hex_digit c = (c \<in> set ''0123456789abcdefABCDEF'')"

definition dashed :: "string \<Rightarrow> string" where
  "dashed hs =
     take 8 hs @ ''-'' @ take 4 (drop 8 hs) @ ''-'' @ take 4 (drop 12 hs) @ ''-''
       @ take 4 (drop 16 hs) @ ''-'' @ drop 20 hs"

definition canonical_uuid :: "string \<Rightarrow> bool" where
  "canonical_uuid s =
     (let hs = filter (\<lambda>c. c \<noteq> CHR ''-'') s
      in length hs = 32 \<and> list_all is_hex_digit hs \<and> s = dashed hs)"

section \<open>External collaborators\<close>

text \<open>
  The libraries the program calls are parameters of the model: charset detection, the
  codecs behind \<open>open\<close>, the tokenizer of \<open>csv.reader\<close> (from a delimiter and the decoded
  text to the list of records, each a list of cells), what \<open>str.format\<close> does with a
  value it has looked up, the random UUID source, the clock and the two path operations
  of \<open>pathlib\<close>. A strict decoder returns the text or the exception that opening and
  reading the file raises: UnicodeDecodeError where the bytes do not decode, and
  another one (LookupError for a name that is no codec, UnicodeError) where the codec
  fails otherwise. The input side of the file system is \<open>read_file\<close> (\<open>None\<close> where
  opening the path for reading raises), and \<open>writable\<close> says whether a path can be
  opened for writing.
\<close>

record env =
  chardet_detect :: "string \<Rightarrow> string option \<times> real"
  decode_strict :: "string \<Rightarrow> string \<Rightarrow> py_error + string"
  decode_replace :: "string \<Rightarrow> string \<Rightarrow> string"
  csv_reader :: "string \<Rightarrow> string \<Rightarrow> string list list"
  format_value :: "string \<Rightarrow> row \<Rightarrow> string option \<Rightarrow> py_error + string"
  uuid4 :: "nat \<Rightarrow> string"
  now :: string
  path_join :: "string \<Rightarrow> string \<Rightarrow> string"
  path_stem :: "string \<Rightarrow> string"
  read_file :: "string \<Rightarrow> string option"
  writable :: "string \<Rightarrow> bool"

datatype level = DEBUG | INFO | WARNING | ERROR

type_synonym log_entry = "level \<times> string"

definition log_to :: "bool \<Rightarrow> level \<Rightarrow> string \<Rightarrow> log_entry list" where
  \<comment> \<open>\<open>if logger: logger.level(msg)\<close>; the flag says whether a logger was passed\<close>
  "log_to logger lv msg = (if logger then [(lv, msg)] else [])"

function str_nat :: "nat \<Rightarrow> string" where
  "str_nat n =
     (if n < 10 then [char_of (48 + n)] else str_nat (n div 10) @ [char_of (48 + n mod 10)])"
  by pat_completeness auto
termination
  by (relation "measure id") auto

section \<open>csv_reader: decoding with fallback\<close>

fun try_encodings ::
  "env \<Rightarrow> bool \<Rightarrow> string \<Rightarrow> string list
     \<Rightarrow> log_entry list \<times> (py_error + (string \<times> string) option)" where
  \<comment> \<open>the \<open>for enc in encodings_to_try\<close> loop: the decoded content and the encoding used
      at the \<open>break\<close>, \<open>None\<close> where the loop runs into its \<open>else\<close>, or the exception
      that \<open>except UnicodeDecodeError\<close> does not catch\<close>
  "try_encodings E logger raw [] = ([], Inr None)"
| "try_encodings E logger raw (enc # encs) =
     (case decode_strict E enc raw of
        Inr content \<Rightarrow> ([], Inr (Some (content, enc)))
      | Inl e \<Rightarrow>
          if e = UnicodeDecodeError
          then (let (lg, res) = try_encodings E logger raw encs
                in (log_to logger WARNING (''Could not open the file in encoding '' @ enc) @ lg,
                    res))
          else ([], Inl e))"

definition encodings_to_try :: "string \<Rightarrow> string list" where
  "encodings_to_try encoding = [encoding, ''cp1251'', ''utf-8'', ''utf-8-sig'']"

definition read_content ::
  "env \<Rightarrow> bool \<Rightarrow> string \<Rightarrow> string \<Rightarrow> log_entry list \<times> (py_error + string \<times> string)" where
  \<comment> \<open>lines 92 to 118 of \<open>iter_csv_rows\<close>: the log, and the content with the encoding
      used or the exception that leaves the generator\<close>
  "read_content E logger raw encoding =
     (case try_encodings E logger raw (encodings_to_try encoding) of
        (lg, Inl e) \<Rightarrow> (lg, Inl e)
      | (lg, Inr (Some (content, enc))) \<Rightarrow>
          (lg @ log_to logger INFO (''File opened in encoding: '' @ enc), Inr (content, enc))
      | (lg, Inr None) \<Rightarrow>
          (lg @ log_to logger ERROR
                  (''File opened with replacement of invalid characters in encoding ''
                     @ encoding)
              @ log_to logger INFO (''File opened in encoding: '' @ encoding),
           Inr (decode_replace E encoding raw, encoding)))"

section \<open>csv_reader: the rows of a file\<close>

fun dict_set :: "('k \<times> 'v) list \<Rightarrow> 'k \<Rightarrow> 'v \<Rightarrow> ('k \<times> 'v) list" where
  \<comment> \<open>\<open>d[k] = v\<close>: an existing key keeps its place\<close>
  "dict_set [] k v = [(k, v)]"
| "dict_set ((k', v') # d) k v = (if k' = k then (k, v) # d else (k', v') # dict_set d k v)"

definition py_dict :: "('k \<times> 'v) list \<Rightarrow> ('k \<times> 'v) list" where
  \<comment> \<open>\<open>dict(items)\<close>\<close>
  "py_dict items = foldl (\<lambda>d (k, v). dict_set d k v) [] items"

text \<open>
  What \<open>csv.DictReader\<close> returns for a record: the cells under the field names, \<open>None\<close>
  for the field names the record does not reach and, where the record is longer than
  the header, the remaining cells under the key \<open>None\<close>. That entry is inserted last,
  so the dictionary is a pair of its string-keyed part and the optional rest.
\<close>

type_synonym raw_row = "row \<times> string list option"

definition DictReader_row :: "string list \<Rightarrow> string list \<Rightarrow> raw_row" where
  "DictReader_row fieldnames rec =
     (let d = py_dict (zip fieldnames (map Some rec));
          lf = length fieldnames; lr = length rec
      in if lf < lr then (d, Some (drop lf rec))
         else if lf > lr then (foldl (\<lambda>d key. dict_set d key None) d (drop lr fieldnames), None)
         else (d, None))"

definition normalise_keys :: "raw_row \<Rightarrow> py_error + row" where
  \<comment> \<open>\<open>{k.strip().lower(): v for k, v in row.items()}\<close>; the key \<open>None\<close> has no \<open>strip\<close>\<close>
  "normalise_keys rr =
     (case snd rr of
        Some rest \<Rightarrow> Inl AttributeError
      | None \<Rightarrow> Inr (py_dict (map (\<lambda>(k, v). (lower (strip k), v)) (fst rr))))"

text \<open>
  The generator is modelled by its trace: the log calls it makes and the pairs it
  yields, in the order in which a consumer that exhausts it sees them, ended by the
  exception where one leaves the generator.
\<close>

datatype gen_item = Logged log_entry | Yield nat row | Raise py_error

fun yielded :: "gen_item list \<Rightarrow> (nat \<times> row) list" where
  "yielded [] = []"
| "yielded (Logged e # items) = yielded items"
| "yielded (Yield n r # items) = (n, r) # yielded items"
| "yielded (Raise e # items) = []"

fun raised :: "gen_item list \<Rightarrow> py_error option" where
  "raised [] = None"
| "raised (Raise e # items) = Some e"
| "raised (item # items) = raised items"

fun iter_rows :: "string list \<Rightarrow> string list \<Rightarrow> bool \<Rightarrow> nat \<Rightarrow> string list list \<Rightarrow> gen_item list" where
  \<comment> \<open>the loop \<open>for line_num, row in enumerate(reader, start=2)\<close> inside the \<open>try\<close>:
      DictReader passes over empty records without counting them; an exception ends
      the generator in the handler\<close>
  "iter_rows fieldnames required logger line_num [] = []"
| "iter_rows fieldnames required logger line_num (rec # recs) =
     (if rec = [] then iter_rows fieldnames required logger line_num recs
      else (case normalise_keys (DictReader_row fieldnames rec) of
              Inl e \<Rightarrow> map Logged (log_to logger ERROR ''Error while processing the CSV file'')
            | Inr r \<Rightarrow>
                (let (ok, err_msg) = check_required_fields r required
                 in if \<not> ok
                    then map Logged (log_to logger ERROR
                           (''Line '' @ str_nat line_num @ '': '' @ err_msg))
                         @ iter_rows fieldnames required logger (Suc line_num) recs
                    else Yield line_num r
                         # iter_rows fieldnames required logger (Suc line_num) recs)))"

definition iter_csv_rows ::
  "env \<Rightarrow> string \<Rightarrow> string \<Rightarrow> string list \<Rightarrow> bool \<Rightarrow> string \<Rightarrow> gen_item list" where
  \<comment> \<open>\<open>raw\<close> is the content of the file at \<open>csv_file_path\<close>; the decoding is outside the
      \<open>try\<close>; a file without a header record has \<open>fieldnames = None\<close>, and iterating
      over it raises into the handler\<close>
  "iter_csv_rows E raw encoding required logger delimiter =
     (case read_content E logger raw encoding of
        (lg, Inl e) \<Rightarrow> map Logged lg @ [Raise e]
      | (lg, Inr (content, used)) \<Rightarrow>
          map Logged lg @
          (case csv_reader E delimiter content of
             [] \<Rightarrow> map Logged (log_to logger ERROR ''Error while processing the CSV file'')
           | header # recs \<Rightarrow>
               iter_rows (map (\<lambda>field. lower (strip field)) header) required logger 2 recs))"

text \<open>
  The rows of a file as the specification describes them: one row per non-empty data
  record, numbered from 2.
\<close>

definition csv_row :: "string list \<Rightarrow> string list \<Rightarrow> row" where
  "csv_row fieldnames rec = py_dict (map (\<lambda>(k, v). (lower (strip k), v)) (fst (DictReader_row fieldnames rec)))"

definition data_rows :: "string list \<Rightarrow> string list list \<Rightarrow> row list" where
  "data_rows fieldnames recs = map (csv_row fieldnames) (filter (\<lambda>rec. rec \<noteq> []) recs)"

definition numbered :: "nat \<Rightarrow> 'a list \<Rightarrow> (nat \<times> 'a) list" where
  "numbered n xs = zip [n ..< n + length xs] xs"

section \<open>Configuration\<close>

text \<open>
  \<open>get_config_value\<close> is an external key-value provider; the values the program asks for
  are the fields of a record. A name template is kept as \<open>str.format\<close> reads it, from
  left to right: literal text, replacement fields and, where the braces do not match,
  the place at which the parser gives up. A replacement field is the name of its
  argument and the rest of what stands between the braces (attribute and index access,
  conversion, format specification), empty for a plain field. An optional entry is
  \<open>None\<close> where the key is not configured.
\<close>

datatype segment = Lit string | Field string string | Malformed

type_synonym template = "segment list"

record config =
  required_fields :: "string list"
  default_delimiter :: string
  role_template :: template
  datagroup_template :: template
  model_version :: "string option"
  model_name :: "string option"
  namespaces :: "string \<Rightarrow> string option"
  me_namespace :: "string option"
  fixed_resources :: "string \<Rightarrow> string option"

section \<open>xml_generator\<close>

definition is_positional :: "string \<Rightarrow> bool" where
  \<comment> \<open>an empty or all-digit argument name refers to the positional arguments\<close>
  "is_positional f = list_all (\<lambda>c. 48 \<le> (of_char c :: nat) \<and> (of_char c :: nat) \<le> 57) f"

definition index_value :: "string \<Rightarrow> int" where
  "index_value f = foldl (\<lambda>a c. 10 * a + ((of_char c :: int) - 48)) 0 f"

definition str_value :: "string option \<Rightarrow> string" where
  "str_value v = (case v of None \<Rightarrow> ''None'' | Some s \<Rightarrow> s)"

fun format_template :: "env \<Rightarrow> template \<Rightarrow> row \<Rightarrow> py_error + string" where
  \<comment> \<open>\<open>template.format(**data)\<close>: there are no positional arguments, so a positional
      field raises IndexError (ValueError where the index does not fit a machine word);
      a named argument is looked up in \<open>data\<close> before the rest of its field is applied\<close>
  "format_template E [] data = Inr []"
| "format_template E (Lit s # segs) data =
     (case format_template E segs data of Inl e \<Rightarrow> Inl e | Inr rest \<Rightarrow> Inr (s @ rest))"
| "format_template E (Malformed # segs) data = Inl ValueError"
| "format_template E (Field f spec # segs) data =
     (if is_positional f
      then (if index_value f > 9223372036854775807 then Inl ValueError else Inl IndexError)
      else (case map_of data f of
              None \<Rightarrow> Inl (KeyError f)
            | Some v \<Rightarrow>
                (case (if spec = [] then Inr (str_value v) else format_value E spec data v) of
                   Inl e \<Rightarrow> Inl e
                 | Inr s \<Rightarrow>
                     (case format_template E segs data of
                        Inl e \<Rightarrow> Inl e
                      | Inr rest \<Rightarrow> Inr (s @ rest)))))"

text \<open>
  The incremental writer \<open>xf\<close> is a sink of markup events; a tag or attribute name is
  the string in Clark notation that the source builds. Prefix declarations (\<open>nsmap\<close>)
  and the XML declaration belong to the serialisation and are no events. The sink takes
  every string: that lxml refuses a string XML cannot hold, and that a write to the disk
  can fail half way, is not modelled, so the properties below speak of the exceptions
  the program raises itself and of what it has written when it returns.
\<close>

datatype xml_event = Start string "(string \<times> string) list" | Text string | End string

record world =
  stream :: "xml_event list"
  log :: "log_entry list"
  uid_counter :: nat
  outputs :: "string \<Rightarrow> xml_event list option"

definition gen_uid :: "env \<Rightarrow> world \<Rightarrow> string \<times> world" where
  "gen_uid E w = (uuid4 E (uid_counter w), w\<lparr>uid_counter := Suc (uid_counter w)\<rparr>)"

definition logs :: "bool \<Rightarrow> level \<Rightarrow> string \<Rightarrow> world \<Rightarrow> world" where
  "logs logger lv msg w = w\<lparr>log := log w @ log_to logger lv msg\<rparr>"

definition xf_write :: "xml_event list \<Rightarrow> world \<Rightarrow> world" where
  "xf_write evs w = w\<lparr>stream := stream w @ evs\<rparr>"

definition clark :: "string \<Rightarrow> string \<Rightarrow> string" where
  \<comment> \<open>\<open>'{%s}name' % ns\<close>\<close>
  "clark ns name = ''{'' @ ns @ ''}'' @ name"

definition element :: "string \<Rightarrow> (string \<times> string) list \<Rightarrow> xml_event list \<Rightarrow> xml_event list" where
  \<comment> \<open>\<open>with xf.element(tag, attrib): body\<close>\<close>
  "element tag attrib body = Start tag attrib # body @ [End tag]"

definition text_events :: "string option \<Rightarrow> xml_event list" where
  \<comment> \<open>\<open>xf.write(content)\<close>: the writer passes over \<open>None\<close> and writes nothing for \<open>''\<close>\<close>
  "text_events content =
     (case content of None \<Rightarrow> [] | Some s \<Rightarrow> if s = [] then [] else [Text s])"

definition find_uid_field :: "row \<Rightarrow> string option" where
  \<comment> \<open>\<open>next((f for f in data.keys() if '_uid' in f.lower()), None)\<close>\<close>
  "find_uid_field data = find (\<lambda>f. py_in ''_uid'' (lower f)) (map fst data)"

definition fixed_get :: "config \<Rightarrow> string \<Rightarrow> string \<Rightarrow> string" where
  \<comment> \<open>\<open>fixed.get(key, default)\<close>\<close>
  "fixed_get cfg key dflt = (case fixed_resources cfg key of None \<Rightarrow> dflt | Some v \<Rightarrow> v)"

definition role_events ::
  "string \<Rightarrow> string \<Rightarrow> string \<Rightarrow> string \<Rightarrow> string \<Rightarrow> string \<Rightarrow> xml_event list" where
  "role_events cim rdf role_uid privilege_uid folder_uid role_name =
     element (clark cim ''Role'') [(clark rdf ''about'', ''#_'' @ role_uid)]
       (element (clark cim ''IdentifiedObject.name'') [] (text_events (Some role_name))
        @ element (clark cim ''IdentifiedObject.ParentObject'')
            [(clark rdf ''resource'', ''#_'' @ folder_uid)] []
        @ element (clark cim ''Role.kind'') [(clark rdf ''resource'', ''cim:RoleKind.allow'')] []
        @ element (clark cim ''Role.isHost'') [] (text_events (Some ''false''))
        @ element (clark cim ''Role.isUser'') [] (text_events (Some ''true''))
        @ element (clark cim ''Role.Privileges'')
            [(clark rdf ''resource'', ''#_'' @ privilege_uid)] [])"

definition privilege_events ::
  "string \<Rightarrow> string \<Rightarrow> string \<Rightarrow> string \<Rightarrow> string \<Rightarrow> string \<Rightarrow> xml_event list" where
  "privilege_events cim rdf role_uid privilege_uid datagroup_uid priv_operation =
     element (clark cim ''Privilege'') [(clark rdf ''about'', ''#_'' @ privilege_uid)]
       (element (clark cim ''Privilege.Role'') [(clark rdf ''resource'', ''#_'' @ role_uid)] []
        @ element (clark cim ''Privilege.DataItems'')
            [(clark rdf ''resource'', ''#_'' @ datagroup_uid)] []
        @ element (clark cim ''Privilege.Operation'') [(clark rdf ''resource'', priv_operation)] [])"

definition datagroup_events ::
  "string \<Rightarrow> string \<Rightarrow> string \<Rightarrow> string \<Rightarrow> string \<Rightarrow> string \<Rightarrow> string \<Rightarrow> string \<Rightarrow> string
     \<Rightarrow> xml_event list" where
  "datagroup_events cim rdf privilege_uid datagroup_uid objectref_uid datagroup_name
       dg_parent dg_category dg_class =
     element (clark cim ''DataGroup'') [(clark rdf ''about'', ''#_'' @ datagroup_uid)]
       (element (clark cim ''IdentifiedObject.name'') [] (text_events (Some datagroup_name))
        @ element (clark cim ''IdentifiedObject.ParentObject'') [(clark rdf ''resource'', dg_parent)] []
        @ element (clark cim ''DataItem.isHostRestricted'') [] (text_events (Some ''false''))
        @ element (clark cim ''DataItem.isUserRestricted'') [] (text_events (Some ''true''))
        @ element (clark cim ''DataItem.Privileges'')
            [(clark rdf ''resource'', ''#_'' @ privilege_uid)] []
        @ element (clark cim ''DataItem.Category'') [(clark rdf ''resource'', dg_category)] []
        @ element (clark cim ''DataGroup.Class'') [(clark rdf ''resource'', dg_class)] []
        @ element (clark cim ''DataGroup.Objects'')
            [(clark rdf ''resource'', ''#_'' @ objectref_uid)] [])"

definition objectref_events ::
  "string \<Rightarrow> string \<Rightarrow> string \<Rightarrow> string \<Rightarrow> string option \<Rightarrow> xml_event list" where
  "objectref_events cim rdf datagroup_uid objectref_uid object_uid =
     element (clark cim ''ObjectReference'') [(clark rdf ''about'', ''#_'' @ objectref_uid)]
       (element (clark cim ''ObjectReference.objectUid'') [] (text_events object_uid)
        @ element (clark cim ''ObjectReference.Group'')
            [(clark rdf ''resource'', ''#_'' @ datagroup_uid)] [])"

definition plain_named :: "template \<Rightarrow> bool" where
  \<comment> \<open>literal text and plain fields with a name\<close>
  "plain_named t =
     list_all (\<lambda>seg. case seg of Lit s \<Rightarrow> True
                             | Field g spec \<Rightarrow> spec = [] \<and> \<not> is_positional g
                             | Malformed \<Rightarrow> False) t"

definition format_names :: "env \<Rightarrow> config \<Rightarrow> row \<Rightarrow> py_error + string \<times> string" where
  \<comment> \<open>the body of the \<open>try\<close>: the role name, then the data group name\<close>
  "format_names E cfg data =
     (case format_template E (role_template cfg) data of
        Inl e \<Rightarrow> Inl e
      | Inr role_name \<Rightarrow>
          (case format_template E (datagroup_template cfg) data of
             Inl e \<Rightarrow> Inl e
           | Inr datagroup_name \<Rightarrow> Inr (role_name, datagroup_name)))"

definition log_start :: "bool \<Rightarrow> row \<Rightarrow> world \<Rightarrow> world" where
  \<comment> \<open>the opening \<open>if logger:\<close> block\<close>
  "log_start logger data w =
     (let object_uid_field =
            (case find_uid_field data of None \<Rightarrow> ''object_uid'' | Some f \<Rightarrow> f);
          object_uid =
            (case map_of data object_uid_field of None \<Rightarrow> ''unknown'' | Some v \<Rightarrow> str_value v)
      in logs logger DEBUG
           (''Start of structure generation for '' @ object_uid_field @ ''='' @ object_uid) w)"

definition add_role_structure ::
  "env \<Rightarrow> config \<Rightarrow> row \<Rightarrow> string \<Rightarrow> bool \<Rightarrow> world \<Rightarrow> (py_error + unit) \<times> world" where
  "add_role_structure E cfg data folder_uid logger w =
     (let w0 = log_start logger data w;
          (role_uid, w1) = gen_uid E w0;
          (privilege_uid, w2) = gen_uid E w1;
          (datagroup_uid, w3) = gen_uid E w2;
          (objectref_uid, w4) = gen_uid E w3
      in case format_names E cfg data of
           Inl e \<Rightarrow>
             (Inl e,
              case e of
                KeyError k \<Rightarrow>
                  logs logger ERROR (''Template error: the data have no field '' @ k) w4
              | _ \<Rightarrow> w4)
         | Inr (role_name, datagroup_name) \<Rightarrow>
             (let w5 = logs logger DEBUG (''Names: Role='' @ role_name @ '', DataGroup=''
                          @ datagroup_name)
                        (logs logger DEBUG (''Generated UID: Role='' @ role_uid
                           @ '', Privilege='' @ privilege_uid @ '', DataGroup='' @ datagroup_uid
                           @ '', ObjectReference='' @ objectref_uid) w4);
                  dg_parent = fixed_get cfg ''datagroup_parent_object''
                                ''#_f02c26a7-df3d-43a7-9c61-46d382e31d2c'';
                  priv_operation = fixed_get cfg ''privilege_operation''
                                ''#_200006fe-0000-0000-c000-0000006d746c'';
                  dg_category = fixed_get cfg ''dataitem_category''
                                ''#_200006ff-0000-0000-c000-0000006d746c'';
                  dg_class = fixed_get cfg ''datagroup_class''
                                ''#_50000709-0000-0000-c000-0000006d746c''
              in case namespaces cfg ''cim'' of
                   None \<Rightarrow> (Inl (KeyError ''cim''), w5)
                 | Some cim \<Rightarrow>
                     (case namespaces cfg ''rdf'' of
                        None \<Rightarrow> (Inl (KeyError ''rdf''), w5)
                      | Some rdf \<Rightarrow>
                          (let w6 = xf_write
                                 (role_events cim rdf role_uid privilege_uid folder_uid role_name
                                  @ privilege_events cim rdf role_uid privilege_uid datagroup_uid
                                      priv_operation
                                  @ datagroup_events cim rdf privilege_uid datagroup_uid
                                      objectref_uid datagroup_name dg_parent dg_category dg_class)
                                 w5
                           in case find_uid_field data of
                                None \<Rightarrow> (Inl ValueError, w6)
                              | Some object_uid_field \<Rightarrow>
                                  (Inr (),
                                   logs logger DEBUG
                                     (''Structure generated for '' @ object_uid_field)
                                     (xf_write
                                        (objectref_events cim rdf datagroup_uid objectref_uid
                                           (row_get data object_uid_field))
                                        w6))))))"

text \<open>Reading a written structure back: attributes and text of the first element with a tag.\<close>

fun attr_of :: "string \<Rightarrow> string \<Rightarrow> xml_event list \<Rightarrow> string option" where
  "attr_of tag a [] = None"
| "attr_of tag a (Start tag' attrib # evs) =
     (if tag' = tag then map_of attrib a else attr_of tag a evs)"
| "attr_of tag a (Text s # evs) = attr_of tag a evs"
| "attr_of tag a (End tag' # evs) = attr_of tag a evs"

fun leading_text :: "xml_event list \<Rightarrow> string" where
  "leading_text (Text s # evs) = s @ leading_text evs"
| "leading_text evs = []"

fun text_of :: "string \<Rightarrow> xml_event list \<Rightarrow> string option" where
  "text_of tag [] = None"
| "text_of tag (Start tag' attrib # evs) =
     (if tag' = tag then Some (leading_text evs) else text_of tag evs)"
| "text_of tag (Text s # evs) = text_of tag evs"
| "text_of tag (End tag' # evs) = text_of tag evs"

fun is_start :: "string \<Rightarrow> xml_event \<Rightarrow> bool" where
  "is_start tag (Start tag' attrib) = (tag' = tag)"
| "is_start tag ev = False"

definition count_elements :: "string \<Rightarrow> xml_event list \<Rightarrow> nat" where
  "count_elements tag evs = length (filter (is_start tag) evs)"

text \<open>
  The linking the specification asks of the four entities of a row, read off the
  written events: every reference names the identity of the entity it points to.
\<close>

definition fully_linked :: "string \<Rightarrow> string \<Rightarrow> xml_event list \<Rightarrow> bool" where
  "fully_linked cim rdf evs =
     (let about = (\<lambda>tag. attr_of (clark cim tag) (clark rdf ''about'') evs);
          resource = (\<lambda>tag. attr_of (clark cim tag) (clark rdf ''resource'') evs)
      in about ''Role'' \<noteq> None \<and> about ''Privilege'' \<noteq> None
         \<and> about ''DataGroup'' \<noteq> None \<and> about ''ObjectReference'' \<noteq> None
         \<and> resource ''Role.Privileges'' = about ''Privilege''
         \<and> resource ''Privilege.DataItems'' = about ''DataGroup''
         \<and> resource ''DataGroup.Objects'' = about ''ObjectReference''
         \<and> resource ''Privilege.Role'' = about ''Role''
         \<and> resource ''DataItem.Privileges'' = about ''Privilege''
         \<and> resource ''ObjectReference.Group'' = about ''DataGroup'')"

text \<open>
  The events one call of \<open>add_role_structure\<close> appends to the stream once both names are
  formatted; \<open>n\<close> is the state of the UUID source at the call.
\<close>

definition structure_events ::
  "env \<Rightarrow> config \<Rightarrow> row \<Rightarrow> string \<Rightarrow> nat \<Rightarrow> string \<times> string \<Rightarrow> xml_event list" where
  "structure_events E cfg data folder_uid n names =
     (case namespaces cfg ''cim'' of
        None \<Rightarrow> []
      | Some cim \<Rightarrow>
          (case namespaces cfg ''rdf'' of
             None \<Rightarrow> []
           | Some rdf \<Rightarrow>
               role_events cim rdf (uuid4 E n) (uuid4 E (Suc n)) folder_uid (fst names)
               @ privilege_events cim rdf (uuid4 E n) (uuid4 E (Suc n)) (uuid4 E (Suc (Suc n)))
                   (fixed_get cfg ''privilege_operation''
                      ''#_200006fe-0000-0000-c000-0000006d746c'')
               @ datagroup_events cim rdf (uuid4 E (Suc n)) (uuid4 E (Suc (Suc n)))
                   (uuid4 E (Suc (Suc (Suc n)))) (snd names)
                   (fixed_get cfg ''datagroup_parent_object''
                      ''#_f02c26a7-df3d-43a7-9c61-46d382e31d2c'')
                   (fixed_get cfg ''dataitem_category''
                      ''#_200006ff-0000-0000-c000-0000006d746c'')
                   (fixed_get cfg ''datagroup_class''
                      ''#_50000709-0000-0000-c000-0000006d746c'')
               @ (case find_uid_field data of
                    None \<Rightarrow> []
                  | Some f \<Rightarrow>
                      objectref_events cim rdf (uuid4 E (Suc (Suc n)))
                        (uuid4 E (Suc (Suc (Suc n)))) (row_get data f))))"

section \<open>xml_generator: the indentation pass\<close>

text \<open>
  A parsed document is a tree of elements; the text and the tail are the character data
  after the start tag and after the end tag, empty where lxml has \<open>None\<close>. A file is
  kept as the sequence of markup events it holds: the parser builds the tree from the
  events and fails on events that are not one well-nested element; the serialiser
  writes the events of a tree back. The serialiser's own pretty printing adds nothing
  to a tree that went through \<open>etree.indent\<close>, whose elements with children all begin
  with a text node.
\<close>

datatype xml_tree =
  Elem (elem_tag: string) (elem_attrib: "(string \<times> string) list") (elem_text: string)
       (elem_children: "xml_tree list") (elem_tail: string)

fun add_tail :: "string \<Rightarrow> xml_tree \<Rightarrow> xml_tree" where
  "add_tail s (Elem tg ats tx cs tls) = Elem tg ats tx cs (tls @ s)"

fun add_text :: "string \<Rightarrow> xml_tree \<Rightarrow> xml_tree" where
  \<comment> \<open>character data inside an open element: its text before the first child, the
      tail of the last child after it\<close>
  "add_text s (Elem tg ats tx cs tls) =
     (if cs = [] then Elem tg ats (tx @ s) cs tls
      else Elem tg ats tx (butlast cs @ [add_tail s (last cs)]) tls)"

fun add_child :: "xml_tree \<Rightarrow> xml_tree \<Rightarrow> xml_tree" where
  "add_child c (Elem tg ats tx cs tls) = Elem tg ats tx (cs @ [c]) tls"

fun parse_events :: "xml_tree list \<Rightarrow> xml_event list \<Rightarrow> xml_tree option" where
  \<comment> \<open>\<open>etree.parse\<close>: the stack holds the open elements, innermost first\<close>
  "parse_events stack (Start tg ats # evs) = parse_events (Elem tg ats [] [] [] # stack) evs"
| "parse_events (cur # stack) (Text s # evs) = parse_events (add_text s cur # stack) evs"
| "parse_events [cur] (End tg # evs) = (if elem_tag cur = tg \<and> evs = [] then Some cur else None)"
| "parse_events (cur # parent # stack) (End tg # evs) =
     (if elem_tag cur = tg then parse_events (add_child cur parent # stack) evs else None)"
| "parse_events [] (Text s # evs) = None"
| "parse_events [] (End tg # evs) = None"
| "parse_events stack [] = None"

definition text_ev :: "string \<Rightarrow> xml_event list" where
  "text_ev s = (if s = [] then [] else [Text s])"

fun write_tree :: "xml_tree \<Rightarrow> xml_event list" where
  "write_tree (Elem tg ats tx cs tls) =
     Start tg ats # text_ev tx @ concat (map write_tree cs) @ End tg # text_ev tls"

definition has_non_whitespace :: "string \<Rightarrow> bool" where
  "has_non_whitespace s = (\<exists>c \<in> set s. \<not> py_isspace c)"

definition indentation :: "nat \<Rightarrow> string" where
  \<comment> \<open>\<open>"\n" + level * space\<close> with \<open>space\<close> two blanks\<close>
  "indentation level = CHR 0x0A # concat (replicate level ''  '')"

fun set_tail :: "string \<Rightarrow> xml_tree \<Rightarrow> xml_tree" where
  "set_tail ind (Elem tg ats tx cs tls) =
     Elem tg ats tx cs (if has_non_whitespace tls then tls else ind)"

fun set_tails :: "nat \<Rightarrow> xml_tree list \<Rightarrow> xml_tree list" where
  \<comment> \<open>the tails of the children at \<open>level\<close>; the one after the last child dedents\<close>
  "set_tails level [] = []"
| "set_tails level [c] = [set_tail (indentation (level - 1)) c]"
| "set_tails level (c # c' # cs) = set_tail (indentation level) c # set_tails level (c' # cs)"

fun indent_children :: "nat \<Rightarrow> xml_tree \<Rightarrow> xml_tree" where
  \<comment> \<open>\<open>_indent_children\<close>, called for the elements that have a child\<close>
  "indent_children level (Elem tg ats tx cs tls) =
     (if cs = [] then Elem tg ats tx cs tls
      else Elem tg ats (if has_non_whitespace tx then tx else indentation level)
             (set_tails level (map (indent_children (Suc level)) cs)) tls)"

definition indent :: "xml_tree \<Rightarrow> xml_tree" where
  \<comment> \<open>\<open>etree.indent(root, space='  ')\<close>\<close>
  "indent doc = indent_children 1 doc"

definition format_xml_pretty :: "string \<Rightarrow> world \<Rightarrow> (py_error + unit) \<times> world" where
  "format_xml_pretty file_path w =
     (case outputs w file_path of
        None \<Rightarrow> (Inl OSError, w)
      | Some evs \<Rightarrow>
          (case parse_events [] evs of
             None \<Rightarrow> (Inl XMLSyntaxError, w)
           | Some doc \<Rightarrow>
               (Inr (), w\<lparr>outputs := (outputs w)(file_path \<mapsto> write_tree (indent doc))\<rparr>)))"

section \<open>xml_generator: the document\<close>


section \<open>csv_processor\<close>












text \<open>Character data at the head of a sequence of events joins what precedes it.\<close>

fun starts_with_text :: "xml_event list \<Rightarrow> bool" where
  "starts_with_text (Text s # evs) = True"
| "starts_with_text evs = False"

section \<open>A stand-in for the libraries\<close>

text \<open>
  The examples run the program in a small environment: input restricted to 7-bit text,
  on which the codecs named here are the identity; a tokenizer for text without quotes
  (one record per line, cells separated by the delimiter, an empty line giving an empty
  record); a counter in place of the random UUID source.
\<close>

definition ascii_only :: "string \<Rightarrow> bool" where
  "ascii_only s = list_all (\<lambda>c. (of_char c :: nat) < 128) s"

fun split_on :: "char \<Rightarrow> string \<Rightarrow> string list" where
  "split_on d [] = [[]]"
| "split_on d (c # cs) =
     (if c = d then [] # split_on d cs
      else (case split_on d cs of [] \<Rightarrow> [[c]] | x # xs \<Rightarrow> (c # x) # xs))"

definition example_csv_reader :: "string \<Rightarrow> string \<Rightarrow> string list list" where
  "example_csv_reader delimiter content =
     (let ls = split_on (CHR 0x0A) content;
          ls' = (if ls \<noteq> [] \<and> last ls = [] then butlast ls else ls)
      in map (\<lambda>l. if l = [] then [] else split_on (hd delimiter) l) ls')"

definition example_uuid :: "nat \<Rightarrow> string" where
  "example_uuid n =
     (let d = str_nat n
      in ''00000000-0000-4000-8000-'' @ replicate (12 - length d) (CHR ''0'') @ d)"

definition example_stem :: "string \<Rightarrow> string" where
  "example_stem name =
     (if CHR ''.'' \<in> set name
      then rev (tl (dropWhile (\<lambda>c. c \<noteq> CHR ''.'') (rev name))) else name)"

definition example_csv :: string where
  "example_csv =
     ''org_name;user_uid\<newline>'' @
     ''Finance;3fa85f64-5717-4562-b3fc-2c963f66afa6\<newline>'' @
     ''Sales;not-a-uuid\<newline>''"

definition overlong_csv :: string where
  \<comment> \<open>the second data record has one cell more than the header\<close>
  "overlong_csv =
     ''org_name;user_uid\<newline>'' @
     ''Finance;3fa85f64-5717-4562-b3fc-2c963f66afa6\<newline>'' @
     ''Sales;0a0a0a0a-5717-4562-b3fc-2c963f66afa6;extra\<newline>'' @
     ''Ops;1b1b1b1b-5717-4562-b3fc-2c963f66afa6\<newline>''"

definition no_org_csv :: string where
  \<comment> \<open>a file without the column the name templates refer to\<close>
  "no_org_csv =
     ''unit;user_uid\<newline>'' @
     ''Finance;3fa85f64-5717-4562-b3fc-2c963f66afa6\<newline>''"

definition example_files :: "(string \<times> string) list" where
  "example_files =
     [(''/data/file1.csv'', example_csv),
      (''/data/file2.csv'', no_org_csv),
      (''/data/file3.csv'', example_csv),
      (''/data/long.csv'', overlong_csv)]"

definition cp1251_same :: "char \<Rightarrow> bool" where
  \<comment> \<open>the bytes that cp1251 decodes to the code point of the same number\<close>
  "cp1251_same c =
     ((of_char c :: nat) < 128
      \<or> (of_char c :: nat) \<in> set [160, 164, 166, 167, 169, 171, 172, 173, 174, 176, 177,
                                    181, 182, 183, 187])"

definition example_decode :: "string \<Rightarrow> string \<Rightarrow> py_error + string" where
  \<comment> \<open>defined for input that decodes within the first 256 code points or not at all\<close>
  "example_decode enc raw =
     (if enc \<in> set [''ascii'', ''utf-8'', ''utf-8-sig'']
      then (if ascii_only raw then Inr raw else Inl UnicodeDecodeError)
      else if enc = ''cp1251''
      then (if list_all cp1251_same raw then Inr raw else Inl UnicodeDecodeError)
      else Inl LookupError)"

definition example_env :: env where
  "example_env =
     \<lparr> chardet_detect = (\<lambda>raw. if ascii_only raw then (Some ''ascii'', 1) else (None, 0)),
       decode_strict = example_decode,
       decode_replace = (\<lambda>enc raw. map (\<lambda>c. if (of_char c :: nat) < 128 then c else CHR ''?'') raw),
       csv_reader = example_csv_reader,
       format_value = (\<lambda>spec data v. if spec = ''!s'' then Inr (str_value v) else Inl ValueError),
       uuid4 = example_uuid,
       now = ''2024-01-01T00:00:00'',
       path_join = (\<lambda>dir name. dir @ ''/'' @ name),
       path_stem = example_stem,
       read_file = map_of example_files,
       writable = (\<lambda>path. \<not> startswith path ''/readonly/'') \<rparr>"

definition example_config :: config where
  "example_config =
     \<lparr> required_fields = [''org_name'', ''user_uid''],
       default_delimiter = '';'',
       role_template = [Lit ''Role '', Field ''org_name'' []],
       datagroup_template = [Lit ''Group '', Field ''org_name'' []],
       model_version = Some ''1.0.0'',
       model_name = Some ''Access'',
       namespaces = map_of [(''rdf'', ''http://www.w3.org/1999/02/22-rdf-syntax-ns#''),
                            (''cim'', ''http://iec.ch/TC57/2014/CIM-schema-cim16#''),
                            (''md'', ''http://iec.ch/TC57/61970-552/ModelDescription/1#'')],
       me_namespace = None,
       fixed_resources = map_of [] \<rparr>"

definition example_world :: world where
  "example_world = \<lparr> stream = [], log = [], uid_counter = 0, outputs = map_of [] \<rparr>"

definition finance_row :: row where
  "finance_row =
     [(''org_name'', Some ''Finance''),
      (''user_uid'', Some ''3fa85f64-5717-4562-b3fc-2c963f66afa6'')]"

definition plain_uid_row :: row where
  \<comment> \<open>the identifier sits in a column named \<open>uid\<close>, without an underscore\<close>
  "plain_uid_row =
     [(''org_name'', Some ''Finance''),
      (''uid'', Some ''3fa85f64-5717-4562-b3fc-2c963f66afa6'')]"

definition no_org_row :: row where
  "no_org_row =
     [(''unit'', Some ''Finance''),
      (''user_uid'', Some ''3fa85f64-5717-4562-b3fc-2c963f66afa6'')]"

definition two_uid_row :: row where
  \<comment> \<open>two columns qualify as object field\<close>
  "two_uid_row =
     [(''org_name'', Some ''Finance''),
      (''a_uid'', Some ''3fa85f64-5717-4562-b3fc-2c963f66afa6''),
      (''b_uid'', Some ''1b1b1b1b-5717-4562-b3fc-2c963f66afa6'')]"

definition positional_config :: config where
  \<comment> \<open>the role template \<open>Role {0}\<close> and the data group template \<open>Group {missing}\<close>\<close>
  "positional_config =
     example_config\<lparr>role_template := [Lit ''Role '', Field ''0'' []],
                     datagroup_template := [Lit ''Group '', Field ''missing'' []]\<rparr>"


definition small_document :: world where
  "small_document =
     example_world\<lparr>outputs := map_of
        [(''/data/small.xml'',
          [Start ''a'' [], Start ''b'' [], Text ''x'', End ''b'', Start ''c'' [], End ''c'',
           End ''a''])]\<rparr>"

section \<open>Properties of the UUID check and of row validation\<close>


lemma hex_digit_facts:
  assumes "is_hex_digit c"
  shows "digit_value c < 16" and "c \<noteq> CHR ''_''" and "\<not> int_isspace c"
    and "c \<noteq> CHR ''-''" and "c \<noteq> CHR ''+''" and "c \<noteq> CHR ''x''" and "c \<noteq> CHR ''X''"
    and "c \<noteq> CHR ''u''" and "c \<noteq> CHR ''{''" and "c \<noteq> CHR ''}''"
  using assms by (auto simp: is_hex_digit_def digit_value_def int_isspace_def)

lemma scan_digits_hex:
  "list_all is_hex_digit cs \<Longrightarrow> 0 \<le> acc \<Longrightarrow>
   \<exists>v. scan_digits cs False acc n = Some (v, n + length cs, []) \<and> 0 \<le> v
       \<and> v < (acc + 1) * 16 ^ length cs"
proof (induction cs arbitrary: acc n)
  case Nil
  then show ?case by simp
next
  case (Cons c cs)
  have c: "is_hex_digit c" and cs: "list_all is_hex_digit cs" using Cons.prems by auto
  let ?a = "16 * acc + int (digit_value c)"
  have a0: "0 \<le> ?a" using Cons.prems by simp
  from Cons.IH[OF cs a0, of "Suc n"] obtain v where
    v: "scan_digits cs False ?a (Suc n) = Some (v, Suc n + length cs, [])" "0 \<le> v"
       "v < (?a + 1) * 16 ^ length cs" by blast
  have "?a + 1 \<le> (acc + 1) * 16" using hex_digit_facts(1)[OF c] by simp
  then have "(?a + 1) * 16 ^ length cs \<le> ((acc + 1) * 16) * 16 ^ length cs"
    by (intro mult_right_mono) auto
  with v(3) have "v < ((acc + 1) * 16) * 16 ^ length cs" by linarith
  moreover have "((acc + 1) * 16) * 16 ^ length cs = (acc + 1) * 16 ^ length (c # cs)"
    by simp
  ultimately have b: "v < (acc + 1) * 16 ^ length (c # cs)" by metis
  have "scan_digits (c # cs) False acc n = Some (v, n + length (c # cs), [])"
    using v(1) hex_digit_facts(1,2)[OF c] by simp
  with v(2) b show ?case by blast
qed

lemma py_int16_hex:
  assumes "list_all is_hex_digit hs" "length hs = 32"
  shows "\<exists>v. py_int16 hs = Some v \<and> 0 \<le> v \<and> v < 2 ^ 128"
proof -
  from assms(2) obtain a b r where hs: "hs = a # b # r"
    by (cases hs; cases "tl hs") auto
  have a: "is_hex_digit a" and b: "is_hex_digit b" using assms(1) hs by auto
  from scan_digits_hex[OF assms(1), of 0 0] obtain v where
    v: "scan_digits hs False 0 0 = Some (v, 32, [])" "0 \<le> v" "v < 16 ^ 32"
    using assms(2) by auto
  have "py_int16 hs = Some v"
    using v(1) hex_digit_facts[OF a] hex_digit_facts[OF b]
    by (simp add: py_int16_def hs)
  moreover have "(16::int) ^ 32 = 2 ^ 128" by simp
  ultimately show ?thesis using v by auto
qed

lemma remove_all_absent:
  "p \<notin> set s \<Longrightarrow> remove_all (p # ps) s = s"
  by (induction s) auto

lemma dropWhile_none: "\<forall>c\<in>set s. \<not> P c \<Longrightarrow> dropWhile P s = s"
  by (cases s) auto

lemma strip_chars_absent:
  "\<forall>c\<in>set s. c \<notin> set chars \<Longrightarrow> strip_chars chars s = s"
  by (simp add: strip_chars_def dropWhile_none)

lemma set_dashed: "set (dashed hs) \<subseteq> insert (CHR ''-'') (set hs)"
  unfolding dashed_def
  by (auto dest: in_set_takeD in_set_dropD)

lemma filter_dashed:
  assumes "list_all is_hex_digit hs"
  shows "filter (\<lambda>c. c \<noteq> CHR ''-'') (dashed hs) = hs"
proof -
  have f: "\<And>xs. set xs \<subseteq> set hs \<Longrightarrow> filter (\<lambda>c. c \<noteq> CHR ''-'') xs = xs"
    using assms hex_digit_facts(4) by (auto simp: list_all_iff filter_id_conv)
  have "filter (\<lambda>c. c \<noteq> CHR ''-'') (dashed hs) =
        take 8 hs @ take 4 (drop 8 hs) @ take 4 (drop 12 hs) @ take 4 (drop 16 hs) @ drop 20 hs"
    unfolding dashed_def
    by (simp add: f set_take_subset set_drop_subset subset_trans[OF set_take_subset set_drop_subset])
  also have "\<dots> = hs"
  proof -
    have 1: "take 4 (drop 16 hs) @ drop 20 hs = drop 16 hs"
      using append_take_drop_id[of 4 "drop 16 hs"] by simp
    have 2: "take 4 (drop 12 hs) @ drop 16 hs = drop 12 hs"
      using append_take_drop_id[of 4 "drop 12 hs"] by simp
    have 3: "take 4 (drop 8 hs) @ drop 12 hs = drop 8 hs"
      using append_take_drop_id[of 4 "drop 8 hs"] by simp
    show ?thesis by (simp add: 1 2 3)
  qed
  finally show ?thesis .
qed

lemma dashed_valid:
  assumes "list_all is_hex_digit hs" "length hs = 32"
  shows "is_valid_uuid (dashed hs)"
proof -
  have mem: "\<And>c. c \<in> set (dashed hs) \<Longrightarrow> c = CHR ''-'' \<or> is_hex_digit c"
    using set_dashed[of hs] assms(1) by (auto simp: list_all_iff)
  have u: "CHR ''u'' \<notin> set (dashed hs)"
    using mem hex_digit_facts(8) by fastforce
  have br: "\<forall>c\<in>set (dashed hs). c \<notin> set ''{}''"
    using mem hex_digit_facts(9,10) by fastforce
  have h1: "remove_all ''uuid:'' (remove_all ''urn:'' (dashed hs)) = dashed hs"
    using u by (simp add: remove_all_absent)
  from py_int16_hex[OF assms] obtain v where
    v: "py_int16 hs = Some v" "0 \<le> v" "v < 2 ^ 128" by blast
  show ?thesis
    unfolding is_valid_uuid_def UUID_def h1 Let_def strip_chars_absent[OF br]
      filter_dashed[OF assms(1)]
    using v assms(2) by simp
qed

text \<open>
  C5 (amended): every string in the canonical dashed form, 32 hexadecimal digits in
  groups of 8-4-4-4-12, passes the UUID syntax check. The converse does not hold.
\<close>

theorem canonical_uuid_is_valid: "canonical_uuid s \<Longrightarrow> is_valid_uuid s"
  using dashed_valid[of "filter (\<lambda>c. c \<noteq> CHR ''-'') s"]
  by (auto simp: canonical_uuid_def Let_def)

theorem canonical_uuid_is_valid_witness:
  "canonical_uuid ''3fa85f64-5717-4562-b3fc-2c963f66afa6''
   \<and> is_valid_uuid ''3fa85f64-5717-4562-b3fc-2c963f66afa6''"
proof -
  have c: "canonical_uuid ''3fa85f64-5717-4562-b3fc-2c963f66afa6''"
    by (simp add: canonical_uuid_def dashed_def is_hex_digit_def)
  show ?thesis using c canonical_uuid_is_valid[OF c] by simp
qed

text \<open>
  C5 as stated fails: the undashed, the braced and the URN-prefixed spelling of the same
  32 digits pass the check although none of them is in canonical form.
\<close>

theorem is_valid_uuid_not_only_canonical:
  "is_valid_uuid ''3fa85f6457174562b3fc2c963f66afa6''
   \<and> \<not> canonical_uuid ''3fa85f6457174562b3fc2c963f66afa6''
   \<and> is_valid_uuid ''{3fa85f64-5717-4562-b3fc-2c963f66afa6}''
   \<and> \<not> canonical_uuid ''{3fa85f64-5717-4562-b3fc-2c963f66afa6}''
   \<and> is_valid_uuid ''urn:uuid:3fa85f64-5717-4562-b3fc-2c963f66afa6''
   \<and> \<not> canonical_uuid ''urn:uuid:3fa85f64-5717-4562-b3fc-2c963f66afa6''"
  by code_simp

text \<open>
  C1 (amended): a row passes validation exactly when every required field is present
  with a non-empty trimmed value and, for exactly those required fields whose
  lower-cased name contains \<open>_uid\<close>, the trimmed value passes the UUID syntax check.
\<close>

theorem check_required_fields_iff:
  "fst (check_required_fields r required) \<longleftrightarrow>
     (\<forall>f\<in>set required. \<exists>v. row_get r f = Some v \<and> strip v \<noteq> []
         \<and> (py_in ''_uid'' (lower f) \<longrightarrow> is_valid_uuid (strip v)))"
  by (induction required) (auto split: option.splits)


theorem check_required_fields_iff_witness:
  "fst (check_required_fields
          [(''org_name'', Some ''Finance''),
           (''user_uid'', Some '' 3fa85f64-5717-4562-b3fc-2c963f66afa6 '')]
          [''org_name'', ''user_uid''])
   \<and> \<not> fst (check_required_fields
          [(''org_name'', Some ''Sales''), (''user_uid'', Some ''not-a-uuid'')]
          [''org_name'', ''user_uid''])"
proof -
  have s1: "strip ''Finance'' = ''Finance''" "strip ''Sales'' = ''Sales''"
    "strip '' 3fa85f64-5717-4562-b3fc-2c963f66afa6 '' = ''3fa85f64-5717-4562-b3fc-2c963f66afa6''"
    "strip ''not-a-uuid'' = ''not-a-uuid''"
    by code_simp+
  have v: "is_valid_uuid ''3fa85f64-5717-4562-b3fc-2c963f66afa6''"
    "\<not> is_valid_uuid ''not-a-uuid''"
    by code_simp+
  have u: "py_in ''_uid'' (lower ''user_uid'')" "\<not> py_in ''_uid'' (lower ''org_name'')"
    by code_simp+
  show ?thesis
    unfolding check_required_fields_iff
    by (simp add: row_get_def s1 v u)
qed

text \<open>
  C1 as stated fails: the required field \<open>uid\<close> contains the substring \<open>uid\<close> and its
  value is no UUID, yet the row passes validation.
\<close>

theorem check_required_fields_uid_counterexample:
  "py_in ''uid'' (lower ''uid'') \<and> \<not> is_valid_uuid (strip ''not-a-uuid'')
   \<and> fst (check_required_fields [(''uid'', Some ''not-a-uuid'')] [''uid''])"
  by code_simp

section \<open>Properties of the row reader\<close>

lemma try_encodings_find:
  "try_encodings E logger raw encs = (lg, res) \<Longrightarrow>
     ERROR \<notin> fst ` set lg \<and>
     (case find (\<lambda>enc. decode_strict E enc raw \<noteq> Inl UnicodeDecodeError) encs of
        None \<Rightarrow> res = Inr None
      | Some enc \<Rightarrow>
          (case decode_strict E enc raw of
             Inr content \<Rightarrow> res = Inr (Some (content, enc))
           | Inl e \<Rightarrow> res = Inl e \<and> e \<noteq> UnicodeDecodeError))"
proof (induction encs arbitrary: lg res)
  case Nil
  then show ?case by simp
next
  case (Cons enc encs)
  show ?case
  proof (cases "decode_strict E enc raw")
    case (Inr content)
    with Cons.prems show ?thesis by auto
  next
    case (Inl e)
    show ?thesis
    proof (cases "e = UnicodeDecodeError")
      case False
      with Inl Cons.prems show ?thesis by auto
    next
      case True
      obtain lg' res' where r: "try_encodings E logger raw encs = (lg', res')"
        by (cases "try_encodings E logger raw encs") auto
      with Cons.prems Inl True
      have "lg = log_to logger WARNING (''Could not open the file in encoding '' @ enc) @ lg'"
        and "res = res'" by auto
      with Cons.IH[OF r] Inl True show ?thesis by (auto simp: log_to_def)
    qed
  qed
qed

text \<open>
  C4 (amended): the reader tries the guessed encoding, cp1251, utf-8 and utf-8-sig in
  this order and goes on to the next one only after a UnicodeDecodeError. The first
  attempt that does not raise UnicodeDecodeError decides: where it decodes, its content
  is used for the whole file and no error is logged; where it raises another exception
  (a name that is no codec), that exception leaves the reader. When all four attempts
  raise UnicodeDecodeError, the content is the decoding with the guessed encoding that
  replaces invalid characters, and an error is logged (to the logger, when one was
  passed).
\<close>

theorem read_content_fallback:
  "read_content E logger raw encoding = (lg, res) \<Longrightarrow>
     (case find (\<lambda>enc. decode_strict E enc raw \<noteq> Inl UnicodeDecodeError)
                [encoding, ''cp1251'', ''utf-8'', ''utf-8-sig''] of
        None \<Rightarrow> res = Inr (decode_replace E encoding raw, encoding)
                \<and> (logger \<longrightarrow> ERROR \<in> fst ` set lg)
      | Some enc \<Rightarrow>
          (case decode_strict E enc raw of
             Inr content \<Rightarrow> res = Inr (content, enc) \<and> ERROR \<notin> fst ` set lg
           | Inl e \<Rightarrow> res = Inl e \<and> e \<noteq> UnicodeDecodeError))"
proof -
  assume a: "read_content E logger raw encoding = (lg, res)"
  obtain lg' res' where r: "try_encodings E logger raw (encodings_to_try encoding) = (lg', res')"
    by (cases "try_encodings E logger raw (encodings_to_try encoding)") auto
  note f = try_encodings_find[OF r, unfolded encodings_to_try_def]
  from f have ne: "ERROR \<notin> fst ` set lg'" by simp
  show ?thesis
  proof (cases "find (\<lambda>enc. decode_strict E enc raw \<noteq> Inl UnicodeDecodeError)
                  [encoding, ''cp1251'', ''utf-8'', ''utf-8-sig'']")
    case None
    with f have "res' = Inr None" by simp
    with a r have "res = Inr (decode_replace E encoding raw, encoding)"
      and "lg = lg' @ log_to logger ERROR
                  (''File opened with replacement of invalid characters in encoding ''
                     @ encoding)
              @ log_to logger INFO (''File opened in encoding: '' @ encoding)"
      by (simp_all add: read_content_def)
    with None show ?thesis by (simp add: log_to_def)
  next
    case (Some enc)
    show ?thesis
    proof (cases "decode_strict E enc raw")
      case (Inr content)
      with f Some have "res' = Inr (Some (content, enc))" by simp
      with a r have "res = Inr (content, enc)"
        and "lg = lg' @ log_to logger INFO (''File opened in encoding: '' @ enc)"
        by (simp_all add: read_content_def)
      with Some Inr ne show ?thesis by (auto simp: log_to_def)
    next
      case (Inl e)
      with f Some have "res' = Inl e" "e \<noteq> UnicodeDecodeError" by simp_all
      with a r have "res = Inl e" by (simp add: read_content_def)
      with Some Inl \<open>e \<noteq> UnicodeDecodeError\<close> show ?thesis by simp
    qed
  qed
qed

theorem read_content_fallback_witness:
  "read_content example_env True [CHR 0x98] ''ascii'' =
     ([(WARNING, ''Could not open the file in encoding ascii''),
       (WARNING, ''Could not open the file in encoding cp1251''),
       (WARNING, ''Could not open the file in encoding utf-8''),
       (WARNING, ''Could not open the file in encoding utf-8-sig''),
       (ERROR, ''File opened with replacement of invalid characters in encoding ascii''),
       (INFO, ''File opened in encoding: ascii'')], Inr (''?'', ''ascii''))
   \<and> find (\<lambda>enc. decode_strict example_env enc [CHR 0x98] \<noteq> Inl UnicodeDecodeError)
          [''ascii'', ''cp1251'', ''utf-8'', ''utf-8-sig''] = None
   \<and> read_content example_env True [CHR ''a'', CHR 0xA7] ''ascii'' =
     ([(WARNING, ''Could not open the file in encoding ascii''),
       (INFO, ''File opened in encoding: cp1251'')], Inr ([CHR ''a'', CHR 0xA7], ''cp1251''))
   \<and> find (\<lambda>enc. decode_strict example_env enc [CHR ''a'', CHR 0xA7] \<noteq> Inl UnicodeDecodeError)
          [''ascii'', ''cp1251'', ''utf-8'', ''utf-8-sig''] = Some ''cp1251''"
proof -
  let ?lg = "[(WARNING, ''Could not open the file in encoding ascii''),
       (WARNING, ''Could not open the file in encoding cp1251''),
       (WARNING, ''Could not open the file in encoding utf-8''),
       (WARNING, ''Could not open the file in encoding utf-8-sig''),
       (ERROR, ''File opened with replacement of invalid characters in encoding ascii''),
       (INFO, ''File opened in encoding: ascii'')]"
  let ?lg2 = "[(WARNING, ''Could not open the file in encoding ascii''),
       (INFO, ''File opened in encoding: cp1251'')]"
  have h: "read_content example_env True [CHR 0x98] ''ascii'' = (?lg, Inr (''?'', ''ascii''))"
    by code_simp
  have f: "find (\<lambda>enc. decode_strict example_env enc [CHR 0x98] \<noteq> Inl UnicodeDecodeError)
          [''ascii'', ''cp1251'', ''utf-8'', ''utf-8-sig''] = None"
    by code_simp
  have h2: "read_content example_env True [CHR ''a'', CHR 0xA7] ''ascii'' =
      (?lg2, Inr ([CHR ''a'', CHR 0xA7], ''cp1251''))"
    by code_simp
  have f2: "find (\<lambda>enc. decode_strict example_env enc [CHR ''a'', CHR 0xA7] \<noteq> Inl UnicodeDecodeError)
          [''ascii'', ''cp1251'', ''utf-8'', ''utf-8-sig''] = Some ''cp1251''"
    by code_simp
  from read_content_fallback[OF h] f have "ERROR \<in> fst ` set ?lg" by simp
  moreover from read_content_fallback[OF h2] f2
  have "case decode_strict example_env ''cp1251'' [CHR ''a'', CHR 0xA7] of
          Inr content \<Rightarrow> Inr ([CHR ''a'', CHR 0xA7], ''cp1251'') = (Inr (content, ''cp1251'') :: py_error + string \<times> string)
                       \<and> ERROR \<notin> fst ` set ?lg2
        | Inl e \<Rightarrow> (Inr ([CHR ''a'', CHR 0xA7], ''cp1251'') :: py_error + string \<times> string) = Inl e \<and> e \<noteq> UnicodeDecodeError"
    by simp
  ultimately show ?thesis using h f h2 f2 by simp
qed

text \<open>
  C4 as stated fails: the strict attempt with the guessed encoding fails, cp1251 would
  decode the whole file, and the reader does not try it: the LookupError of the unknown
  codec name leaves the generator, which yields no row.
\<close>

theorem read_content_unknown_codec_counterexample:
  "decode_strict example_env ''bogus-enc'' ''a;b'' = Inl LookupError
   \<and> decode_strict example_env ''cp1251'' ''a;b'' = Inr ''a;b''
   \<and> read_content example_env True ''a;b'' ''bogus-enc'' = ([], Inl LookupError)
   \<and> raised (iter_csv_rows example_env ''a;b'' ''bogus-enc'' [] True '';'') = Some LookupError
   \<and> yielded (iter_csv_rows example_env ''a;b'' ''bogus-enc'' [] True '';'') = []"
  by code_simp

lemma yielded_append_Logged: "yielded (map Logged lg @ items) = yielded items"
  by (induction lg) auto

lemma yielded_Logged: "yielded (map Logged lg) = []"
  by (induction lg) auto

lemma numbered_Cons: "numbered n (x # xs) = (n, x) # numbered (Suc n) xs"
proof -
  have "[n ..< n + length (x # xs)] = n # [Suc n ..< Suc n + length xs]"
    by (subst upt_rec) simp
  then show ?thesis by (simp add: numbered_def)
qed

lemma normalise_short:
  "length rec \<le> length fieldnames \<Longrightarrow>
   normalise_keys (DictReader_row fieldnames rec) = Inr (csv_row fieldnames rec)"
  by (simp add: normalise_keys_def DictReader_row_def csv_row_def Let_def)

lemma iter_rows_yielded:
  "\<forall>rec\<in>set recs. length rec \<le> length fieldnames \<Longrightarrow>
   yielded (iter_rows fieldnames required logger n recs) =
     filter (\<lambda>(i, r). fst (check_required_fields r required))
            (numbered n (data_rows fieldnames recs))"
proof (induction recs arbitrary: n)
  case Nil
  then show ?case by (simp add: data_rows_def numbered_def)
next
  case (Cons rec recs)
  then have IH: "\<And>n. yielded (iter_rows fieldnames required logger n recs) =
     filter (\<lambda>(i, r). fst (check_required_fields r required))
            (numbered n (data_rows fieldnames recs))"
    and len: "length rec \<le> length fieldnames" by auto
  show ?case
  proof (cases "rec = []")
    case True
    then show ?thesis using IH by (simp add: data_rows_def)
  next
    case False
    have d: "data_rows fieldnames (rec # recs) = csv_row fieldnames rec # data_rows fieldnames recs"
      using False by (simp add: data_rows_def)
    show ?thesis
      using False IH
      by (simp add: d numbered_Cons normalise_short[OF len] yielded_append_Logged
          split: prod.splits)
  qed
qed

text \<open>
  On a file none of whose records is longer than the header, the reader yields the
  non-empty data records that pass the validation, in file order, numbered from 2.
\<close>

lemma iter_csv_rows_short_records:
  assumes "read_content E logger raw encoding = (lg, Inr (content, used))"
    and "csv_reader E delimiter content = header # recs"
    and "\<forall>rec\<in>set recs. length rec \<le> length header"
  shows "yielded (iter_csv_rows E raw encoding required logger delimiter) =
     filter (\<lambda>(line_num, r). fst (check_required_fields r required))
            (numbered 2 (data_rows (map (\<lambda>field. lower (strip field)) header) recs))"
proof -
  have "\<forall>rec\<in>set recs. length rec \<le> length (map (\<lambda>field. lower (strip field)) header)"
    using assms(3) by simp
  from iter_rows_yielded[OF this] show ?thesis
    by (simp add: iter_csv_rows_def assms(1,2) yielded_append_Logged)
qed

text \<open>
  C6: the reader on a file whose second data record has one cell more than the header.
  The key normalisation of that record raises AttributeError, the handler of the
  generator logs it and the generator ends: the first row is yielded, and the third
  record, which passes the validation, is not.
\<close>

theorem iter_csv_rows_overlong_record:
  "csv_reader example_env '';'' overlong_csv =
     [[''org_name'', ''user_uid''],
      [''Finance'', ''3fa85f64-5717-4562-b3fc-2c963f66afa6''],
      [''Sales'', ''0a0a0a0a-5717-4562-b3fc-2c963f66afa6'', ''extra''],
      [''Ops'', ''1b1b1b1b-5717-4562-b3fc-2c963f66afa6'']]
   \<and> normalise_keys (DictReader_row [''org_name'', ''user_uid'']
         [''Sales'', ''0a0a0a0a-5717-4562-b3fc-2c963f66afa6'', ''extra'']) = Inl AttributeError
   \<and> fst (check_required_fields
            [(''org_name'', Some ''Ops''),
             (''user_uid'', Some ''1b1b1b1b-5717-4562-b3fc-2c963f66afa6'')]
            [''org_name'', ''user_uid''])
   \<and> iter_csv_rows example_env overlong_csv ''ascii'' [''org_name'', ''user_uid''] True '';'' =
     [Logged (INFO, ''File opened in encoding: ascii''),
      Yield 2 [(''org_name'', Some ''Finance''),
               (''user_uid'', Some ''3fa85f64-5717-4562-b3fc-2c963f66afa6'')],
      Logged (ERROR, ''Error while processing the CSV file'')]"
  by code_simp

text \<open>
  C10: with an empty list of required fields the validation accepts every row, and the
  reader on the same file still yields the first row only.
\<close>

theorem iter_csv_rows_no_required_fields_overlong_record:
  "check_required_fields
     [(''org_name'', Some ''Ops''),
      (''user_uid'', Some ''1b1b1b1b-5717-4562-b3fc-2c963f66afa6'')] [] = (True, [])
   \<and> csv_reader example_env '';'' overlong_csv =
     [[''org_name'', ''user_uid''],
      [''Finance'', ''3fa85f64-5717-4562-b3fc-2c963f66afa6''],
      [''Sales'', ''0a0a0a0a-5717-4562-b3fc-2c963f66afa6'', ''extra''],
      [''Ops'', ''1b1b1b1b-5717-4562-b3fc-2c963f66afa6'']]
   \<and> yielded (iter_csv_rows example_env overlong_csv ''ascii'' [] True '';'') =
     [(2, [(''org_name'', Some ''Finance''),
           (''user_uid'', Some ''3fa85f64-5717-4562-b3fc-2c963f66afa6'')])]"
  by code_simp

section \<open>Properties of the entity graph builder\<close>

lemma clark_eq: "clark ns a = clark ns b \<longleftrightarrow> a = b"
  by (simp add: clark_def)

lemma logs_proj:
  "stream (logs logger lv msg w) = stream w"
  "uid_counter (logs logger lv msg w) = uid_counter w"
  "outputs (logs logger lv msg w) = outputs w"
  "log (logs logger lv msg w) = log w @ log_to logger lv msg"
  by (simp_all add: logs_def)

lemma log_start_proj:
  "stream (log_start logger data w) = stream w"
  "uid_counter (log_start logger data w) = uid_counter w"
  "outputs (log_start logger data w) = outputs w"
  by (simp_all add: log_start_def Let_def logs_proj)

lemma xf_write_proj:
  "stream (xf_write evs w) = stream w @ evs"
  "uid_counter (xf_write evs w) = uid_counter w"
  "outputs (xf_write evs w) = outputs w"
  "log (xf_write evs w) = log w"
  by (simp_all add: xf_write_def)

lemma gen_uid_proj:
  "fst (gen_uid E w) = uuid4 E (uid_counter w)"
  "stream (snd (gen_uid E w)) = stream w"
  "uid_counter (snd (gen_uid E w)) = Suc (uid_counter w)"
  "outputs (snd (gen_uid E w)) = outputs w"
  "log (snd (gen_uid E w)) = log w"
  by (simp_all add: gen_uid_def)

lemma fst_add_role_structure:
  "fst (add_role_structure E cfg data folder_uid logger w) =
     (case format_names E cfg data of
        Inl e \<Rightarrow> Inl e
      | Inr names \<Rightarrow>
          (case namespaces cfg ''cim'' of
             None \<Rightarrow> Inl (KeyError ''cim'')
           | Some cim \<Rightarrow>
               (case namespaces cfg ''rdf'' of
                  None \<Rightarrow> Inl (KeyError ''rdf'')
                | Some rdf \<Rightarrow>
                    (case find_uid_field data of None \<Rightarrow> Inl ValueError | Some f \<Rightarrow> Inr ()))))"
  by (simp add: add_role_structure_def Let_def split_def split: sum.splits option.splits)

lemma stream_add_role_structure:
  "stream (snd (add_role_structure E cfg data folder_uid logger w)) =
     stream w @
     (case format_names E cfg data of
        Inl e \<Rightarrow> []
      | Inr names \<Rightarrow> structure_events E cfg data folder_uid (uid_counter w) names)"
  by (simp add: add_role_structure_def structure_events_def Let_def split_def logs_proj
      log_start_proj xf_write_proj gen_uid_proj split: sum.splits option.splits py_error.splits)

lemma log_add_role_structure_KeyError:
  "format_names E cfg data = Inl (KeyError k) \<Longrightarrow>
   log (snd (add_role_structure E cfg data folder_uid logger w)) =
     log (log_start logger data w)
     @ log_to logger ERROR (''Template error: the data have no field '' @ k)"
  by (simp add: add_role_structure_def Let_def split_def logs_proj gen_uid_proj)

lemma format_template_missing:
  "Field f spec \<in> set t \<Longrightarrow> f \<notin> fst ` set data \<Longrightarrow> \<exists>e. format_template E t data = Inl e"
proof (induction E t data rule: format_template.induct)
  case (1 E data)
  then show ?case by simp
next
  case (2 E s segs data)
  then show ?case by (auto split: sum.splits)
next
  case (3 E segs data)
  then show ?case by simp
next
  case (4 E g sp segs data)
  show ?case
  proof (cases "is_positional g")
    case True
    then show ?thesis by simp
  next
    case False
    show ?thesis
    proof (cases "map_of data g")
      case None
      with False show ?thesis by simp
    next
      case (Some v)
      with "4.prems" have "f \<noteq> g" by (auto simp: map_of_eq_None_iff[symmetric])
      with "4.prems" have m: "Field f spec \<in> set segs" by simp
      show ?thesis
      proof (cases "if sp = [] then Inr (str_value v) else format_value E sp data v")
        case (Inl e)
        with False Some show ?thesis by simp
      next
        case (Inr s)
        from "4.IH"[OF False Some Inr m "4.prems"(2)] obtain e
          where "format_template E segs data = Inl e" by blast
        with False Some Inr show ?thesis by simp
      qed
    qed
  qed
qed

lemma format_template_plain:
  "plain_named t \<Longrightarrow> format_template E t data = Inl e \<Longrightarrow>
   \<exists>k. e = KeyError k \<and> k \<notin> fst ` set data"
proof (induction E t data arbitrary: e rule: format_template.induct)
  case (1 E data)
  then show ?case by simp
next
  case (2 E s segs data)
  then show ?case by (auto simp: plain_named_def split: sum.splits)
next
  case (3 E segs data)
  then show ?case by (simp add: plain_named_def)
next
  case (4 E g sp segs data)
  from "4.prems"(1) have sp: "sp = []" and np: "\<not> is_positional g" and pl: "plain_named segs"
    by (simp_all add: plain_named_def)
  show ?case
  proof (cases "map_of data g")
    case None
    with np "4.prems"(2) show ?thesis by (auto simp: map_of_eq_None_iff)
  next
    case (Some v)
    have i: "(if sp = [] then Inr (str_value v) else format_value E sp data v) = Inr (str_value v)"
      using sp by simp
    from "4.prems"(2) np Some sp obtain e' where "format_template E segs data = Inl e'" "e = e'"
      by (auto split: sum.splits)
    with "4.IH"[OF np Some i pl] show ?thesis by auto
  qed
qed

lemma format_names_missing:
  assumes "Field f spec \<in> set (role_template cfg) \<union> set (datagroup_template cfg)"
    and "f \<notin> fst ` set data"
  shows "\<exists>e. format_names E cfg data = Inl e \<and>
     (plain_named (role_template cfg) \<and> plain_named (datagroup_template cfg) \<longrightarrow>
        (\<exists>k. e = KeyError k \<and> k \<notin> fst ` set data))"
proof (cases "format_template E (role_template cfg) data")
  case (Inl e)
  then have "format_names E cfg data = Inl e" by (simp add: format_names_def)
  with format_template_plain[OF _ Inl] show ?thesis by auto
next
  case (Inr role_name)
  with format_template_missing[of f spec "role_template cfg" data E] assms
  have "Field f spec \<in> set (datagroup_template cfg)" by auto
  from format_template_missing[OF this assms(2)] obtain e where
    e: "format_template E (datagroup_template cfg) data = Inl e" by blast
  with Inr have "format_names E cfg data = Inl e" by (simp add: format_names_def)
  with format_template_plain[OF _ e] show ?thesis by auto
qed

lemma is_start_element:
  "filter (is_start tag) (element t attrib body @ rest) =
     (if t = tag then [Start t attrib] else []) @ filter (is_start tag) body
       @ filter (is_start tag) rest"
  by (simp add: element_def)

lemma is_start_text: "filter (is_start tag) (text_events c) = []"
  by (simp add: text_events_def split: option.splits)

lemma is_start_element_Nil:
  "filter (is_start tag) (element t attrib body) =
     (if t = tag then [Start t attrib] else []) @ filter (is_start tag) body"
  by (simp add: element_def)

lemma attr_of_End: "attr_of tag a (xs @ End t # rest) = attr_of tag a (xs @ rest)"
  by (induction xs rule: attr_of.induct[of _ tag a]) auto

lemma attr_of_element:
  "attr_of tag a (element t attrib body @ rest) =
     (if t = tag then map_of attrib a else attr_of tag a (body @ rest))"
  by (simp add: element_def attr_of_End)

lemma attr_of_element_Nil:
  "attr_of tag a (element t attrib body) =
     (if t = tag then map_of attrib a else attr_of tag a body)"
  using attr_of_element[of tag a t attrib body "[]"] by simp

lemma attr_of_text: "attr_of tag a (text_events c @ rest) = attr_of tag a rest"
  by (simp add: text_events_def split: option.splits)

lemma attr_of_text_Nil: "attr_of tag a (text_events c) = None"
  by (simp add: text_events_def split: option.splits)

lemma linked_events:
  "fully_linked cim rdf
     (role_events cim rdf r p folder_uid role_name
      @ privilege_events cim rdf r p d priv_operation
      @ datagroup_events cim rdf p d ob datagroup_name dg_parent dg_category dg_class
      @ objectref_events cim rdf d ob v)"
  by (simp add: fully_linked_def role_events_def privilege_events_def datagroup_events_def
      objectref_events_def attr_of_element attr_of_element_Nil attr_of_text attr_of_text_Nil
      clark_eq)

lemma count_events:
  "count_elements (clark cim ''Role'')
     (role_events cim rdf r p folder_uid role_name
      @ privilege_events cim rdf r p d priv_operation
      @ datagroup_events cim rdf p d ob datagroup_name dg_parent dg_category dg_class
      @ objectref_events cim rdf d ob v) = 1"
  "count_elements (clark cim ''Privilege'')
     (role_events cim rdf r p folder_uid role_name
      @ privilege_events cim rdf r p d priv_operation
      @ datagroup_events cim rdf p d ob datagroup_name dg_parent dg_category dg_class
      @ objectref_events cim rdf d ob v) = 1"
  "count_elements (clark cim ''DataGroup'')
     (role_events cim rdf r p folder_uid role_name
      @ privilege_events cim rdf r p d priv_operation
      @ datagroup_events cim rdf p d ob datagroup_name dg_parent dg_category dg_class
      @ objectref_events cim rdf d ob v) = 1"
  "count_elements (clark cim ''ObjectReference'')
     (role_events cim rdf r p folder_uid role_name
      @ privilege_events cim rdf r p d priv_operation
      @ datagroup_events cim rdf p d ob datagroup_name dg_parent dg_category dg_class
      @ objectref_events cim rdf d ob v) = 1"
  by (simp_all add: count_elements_def role_events_def privilege_events_def
      datagroup_events_def objectref_events_def is_start_element is_start_element_Nil
      is_start_text clark_eq)

lemma count_elements_Nil: "count_elements tag [] = 0"
  by (simp add: count_elements_def)

lemma no_objectref:
  "count_elements (clark cim ''ObjectReference'')
     (role_events cim rdf r p folder_uid role_name
      @ privilege_events cim rdf r p d priv_operation
      @ datagroup_events cim rdf p d ob datagroup_name dg_parent dg_category dg_class) = 0"
  by (simp add: count_elements_def role_events_def privilege_events_def datagroup_events_def
      is_start_element is_start_element_Nil is_start_text clark_eq)

lemma text_of_object_uid:
  "text_of (clark cim ''ObjectReference.objectUid'')
     (role_events cim rdf r p folder_uid role_name
      @ privilege_events cim rdf r p d priv_operation
      @ datagroup_events cim rdf p d ob datagroup_name dg_parent dg_category dg_class
      @ objectref_events cim rdf d ob v) = Some (case v of None \<Rightarrow> [] | Some s \<Rightarrow> s)"
  by (simp add: role_events_def privilege_events_def datagroup_events_def
      objectref_events_def element_def text_events_def clark_eq split: option.splits)

lemma add_role_structure_Inr:
  assumes "add_role_structure E cfg data folder_uid logger w = (Inr (), w')"
  shows "\<exists>names cim rdf f. format_names E cfg data = Inr names
     \<and> namespaces cfg ''cim'' = Some cim \<and> namespaces cfg ''rdf'' = Some rdf
     \<and> find_uid_field data = Some f
     \<and> stream w' = stream w @ structure_events E cfg data folder_uid (uid_counter w) names"
proof -
  from assms have f: "fst (add_role_structure E cfg data folder_uid logger w) = Inr ()"
    and s: "stream w' = stream (snd (add_role_structure E cfg data folder_uid logger w))"
    by simp_all
  from f show ?thesis
    unfolding s stream_add_role_structure fst_add_role_structure
    by (auto split: sum.splits option.splits)
qed

text \<open>
  C3: whenever the four-entity structure of a row is emitted, each of Role, Privilege,
  DataGroup and ObjectReference is written once and the references are fully linked:
  Role.Privileges, Privilege.DataItems and DataGroup.Objects name the identity of the
  Privilege, the DataGroup and the ObjectReference, and Privilege.Role,
  DataItem.Privileges and ObjectReference.Group name the identity of the Role, the
  Privilege and the DataGroup.
\<close>

theorem add_role_structure_linked:
  assumes "add_role_structure E cfg data folder_uid logger w = (Inr (), w')"
  shows "\<exists>evs cim rdf. stream w' = stream w @ evs
     \<and> namespaces cfg ''cim'' = Some cim \<and> namespaces cfg ''rdf'' = Some rdf
     \<and> fully_linked cim rdf evs
     \<and> (\<forall>t\<in>set [''Role'', ''Privilege'', ''DataGroup'', ''ObjectReference''].
           count_elements (clark cim t) evs = 1)"
proof -
  from add_role_structure_Inr[OF assms] obtain names cim rdf f where
    c: "namespaces cfg ''cim'' = Some cim" and r: "namespaces cfg ''rdf'' = Some rdf"
    and u: "find_uid_field data = Some f"
    and s: "stream w' = stream w @ structure_events E cfg data folder_uid (uid_counter w) names"
    by blast
  let ?evs = "structure_events E cfg data folder_uid (uid_counter w) names"
  have "fully_linked cim rdf ?evs"
    unfolding structure_events_def by (simp add: c r u linked_events)
  moreover have "\<forall>t\<in>set [''Role'', ''Privilege'', ''DataGroup'', ''ObjectReference''].
           count_elements (clark cim t) ?evs = 1"
    unfolding structure_events_def by (simp add: c r u count_events)
  ultimately show ?thesis using c r s by blast
qed

lemma find_first:
  "find P xs = Some x \<Longrightarrow>
   \<exists>before after. xs = before @ x # after \<and> P x \<and> (\<forall>y\<in>set before. \<not> P y)"
proof (induction xs)
  case Nil
  then show ?case by simp
next
  case (Cons a xs)
  show ?case
  proof (cases "P a")
    case True
    with Cons.prems have "a = x" by simp
    with True have "a # xs = [] @ x # xs \<and> P x \<and> (\<forall>y\<in>set []. \<not> P y)" by simp
    then show ?thesis by blast
  next
    case False
    with Cons obtain before after where
      "xs = before @ x # after" "P x" "\<forall>y\<in>set before. \<not> P y" by auto
    with False have "a # xs = (a # before) @ x # after \<and> P x \<and> (\<forall>y\<in>set (a # before). \<not> P y)"
      by simp
    then show ?thesis by blast
  qed
qed

text \<open>
  C2 (amended): the field that serves as object is the first key of the row, in
  iteration order, whose lower-cased name contains \<open>_uid\<close>: no key before it does. A
  row without such a key makes the generation raise, and no ObjectReference is written;
  where the generation returns, the text of ObjectReference.objectUid is the value of
  that first key.
\<close>

theorem add_role_structure_object_uid:
  "((\<forall>k\<in>set (map fst data). \<not> py_in ''_uid'' (lower k)) \<longrightarrow>
      (\<exists>e w' evs. add_role_structure E cfg data folder_uid logger w = (Inl e, w')
         \<and> stream w' = stream w @ evs
         \<and> (case namespaces cfg ''cim'' of
              None \<Rightarrow> evs = []
            | Some cim \<Rightarrow> count_elements (clark cim ''ObjectReference'') evs = 0)))
   \<and> (\<forall>w'. add_role_structure E cfg data folder_uid logger w = (Inr (), w') \<longrightarrow>
      (\<exists>before f after cim evs.
         map fst data = before @ f # after \<and> py_in ''_uid'' (lower f)
         \<and> (\<forall>g\<in>set before. \<not> py_in ''_uid'' (lower g))
         \<and> namespaces cfg ''cim'' = Some cim
         \<and> stream w' = stream w @ evs
         \<and> text_of (clark cim ''ObjectReference.objectUid'') evs =
             Some (case row_get data f of None \<Rightarrow> [] | Some v \<Rightarrow> v)))"
proof (intro conjI impI allI)
  assume "\<forall>k\<in>set (map fst data). \<not> py_in ''_uid'' (lower k)"
  then have n: "find_uid_field data = None"
    by (simp add: find_uid_field_def find_None_iff)
  obtain res w' where a: "add_role_structure E cfg data folder_uid logger w = (res, w')"
    by (cases "add_role_structure E cfg data folder_uid logger w") auto
  then have f: "res = fst (add_role_structure E cfg data folder_uid logger w)"
    and s: "stream w' = stream (snd (add_role_structure E cfg data folder_uid logger w))"
    by simp_all
  from f n obtain e where e: "res = Inl e"
    unfolding fst_add_role_structure by (auto split: sum.splits option.splits)
  let ?evs = "case format_names E cfg data of
        Inl e \<Rightarrow> []
      | Inr names \<Rightarrow> structure_events E cfg data folder_uid (uid_counter w) names"
  have "case namespaces cfg ''cim'' of
              None \<Rightarrow> ?evs = []
            | Some cim \<Rightarrow> count_elements (clark cim ''ObjectReference'') ?evs = 0"
    using n by (auto simp: structure_events_def no_objectref count_elements_Nil
        split: sum.splits option.splits)
  with a e s show "\<exists>e w' evs. add_role_structure E cfg data folder_uid logger w = (Inl e, w')
         \<and> stream w' = stream w @ evs
         \<and> (case namespaces cfg ''cim'' of
              None \<Rightarrow> evs = []
            | Some cim \<Rightarrow> count_elements (clark cim ''ObjectReference'') evs = 0)"
    unfolding stream_add_role_structure by blast
next
  fix w'
  assume a: "add_role_structure E cfg data folder_uid logger w = (Inr (), w')"
  from add_role_structure_Inr[OF a] obtain names cim rdf f where
    c: "namespaces cfg ''cim'' = Some cim" and r: "namespaces cfg ''rdf'' = Some rdf"
    and u: "find_uid_field data = Some f"
    and s: "stream w' = stream w @ structure_events E cfg data folder_uid (uid_counter w) names"
    by blast
  from find_first[OF u[unfolded find_uid_field_def]] obtain before after where
    b: "map fst data = before @ f # after" "py_in ''_uid'' (lower f)"
       "\<forall>g\<in>set before. \<not> py_in ''_uid'' (lower g)"
    by blast
  have "text_of (clark cim ''ObjectReference.objectUid'')
          (structure_events E cfg data folder_uid (uid_counter w) names) =
        Some (case row_get data f of None \<Rightarrow> [] | Some v \<Rightarrow> v)"
    unfolding structure_events_def by (simp add: c r u text_of_object_uid)
  with c b s show "\<exists>before f after cim evs.
         map fst data = before @ f # after \<and> py_in ''_uid'' (lower f)
         \<and> (\<forall>g\<in>set before. \<not> py_in ''_uid'' (lower g))
         \<and> namespaces cfg ''cim'' = Some cim
         \<and> stream w' = stream w @ evs
         \<and> text_of (clark cim ''ObjectReference.objectUid'') evs =
             Some (case row_get data f of None \<Rightarrow> [] | Some v \<Rightarrow> v)"
    by blast
qed

text \<open>
  C7 (amended): when a name template refers to a field that the row does not have, the
  generation raises and writes nothing to the stream. A KeyError is logged as an error
  before it is raised again (to the logger, when one was passed), and a KeyError of an
  absent field it is whenever both templates consist of literal text and plain named
  fields; another exception of \<open>format\<close> leaves without a log entry.
\<close>

theorem add_role_structure_missing_placeholder:
  assumes "Field f spec \<in> set (role_template cfg) \<union> set (datagroup_template cfg)"
    and "f \<notin> fst ` set data"
  shows "\<exists>e w'. add_role_structure E cfg data folder_uid logger w = (Inl e, w')
     \<and> stream w' = stream w
     \<and> (\<forall>k. e = KeyError k \<longrightarrow> logger \<longrightarrow>
            last (log w') = (ERROR, ''Template error: the data have no field '' @ k))
     \<and> (plain_named (role_template cfg) \<and> plain_named (datagroup_template cfg) \<longrightarrow>
            (\<exists>k. e = KeyError k \<and> k \<notin> fst ` set data))"
proof -
  from format_names_missing[OF assms] obtain e where
    e: "format_names E cfg data = Inl e"
    and k: "plain_named (role_template cfg) \<and> plain_named (datagroup_template cfg) \<longrightarrow>
        (\<exists>k. e = KeyError k \<and> k \<notin> fst ` set data)"
    by blast
  obtain res w' where a: "add_role_structure E cfg data folder_uid logger w = (res, w')"
    by (cases "add_role_structure E cfg data folder_uid logger w") auto
  then have f: "res = fst (add_role_structure E cfg data folder_uid logger w)"
    and w': "w' = snd (add_role_structure E cfg data folder_uid logger w)"
    by simp_all
  have res: "res = Inl e" unfolding f fst_add_role_structure by (simp add: e)
  have st: "stream w' = stream w" unfolding w' stream_add_role_structure by (simp add: e)
  have lg: "\<forall>k. e = KeyError k \<longrightarrow> logger \<longrightarrow>
      last (log w') = (ERROR, ''Template error: the data have no field '' @ k)"
  proof (intro allI impI)
    fix k
    assume "e = KeyError k" and l: logger
    with e have "format_names E cfg data = Inl (KeyError k)" by simp
    from log_add_role_structure_KeyError[OF this, of folder_uid logger w]
    have "log w' = log (log_start logger data w)
            @ [(ERROR, ''Template error: the data have no field '' @ k)]"
      unfolding w' using l by (simp only: log_to_def if_True)
    then show "last (log w') = (ERROR, ''Template error: the data have no field '' @ k)"
      by (simp only: last_snoc)
  qed
  from k lg a res st show ?thesis by blast
qed

theorem add_role_structure_linked_witness:
  "fst (add_role_structure example_env example_config finance_row ''FOLDER'' True example_world)
     = Inr ()
   \<and> fully_linked ''http://iec.ch/TC57/2014/CIM-schema-cim16#''
        ''http://www.w3.org/1999/02/22-rdf-syntax-ns#''
        (stream (snd (add_role_structure example_env example_config finance_row ''FOLDER''
           True example_world)))"
proof -
  let ?r = "add_role_structure example_env example_config finance_row ''FOLDER'' True example_world"
  have f: "fst ?r = Inr ()" by code_simp
  then have h: "?r = (Inr (), snd ?r)" by (metis prod.collapse)
  have c: "namespaces example_config ''cim'' = Some ''http://iec.ch/TC57/2014/CIM-schema-cim16#''"
    and r: "namespaces example_config ''rdf'' = Some ''http://www.w3.org/1999/02/22-rdf-syntax-ns#''"
    and s: "stream example_world = []"
    by (simp_all add: example_config_def example_world_def)
  from add_role_structure_linked[OF h] c r s f show ?thesis by auto
qed

theorem add_role_structure_object_uid_witness:
  "find_uid_field [(''org_name'', Some ''Finance'')] = None
   \<and> isl (fst (add_role_structure example_env example_config [(''org_name'', Some ''Finance'')]
              ''FOLDER'' True example_world))
   \<and> fst (add_role_structure example_env example_config two_uid_row ''FOLDER'' True example_world)
       = Inr ()
   \<and> text_of (clark ''http://iec.ch/TC57/2014/CIM-schema-cim16#'' ''ObjectReference.objectUid'')
        (stream (snd (add_role_structure example_env example_config two_uid_row ''FOLDER''
           True example_world)))
       = Some ''3fa85f64-5717-4562-b3fc-2c963f66afa6''"
proof -
  let ?r = "add_role_structure example_env example_config two_uid_row ''FOLDER'' True example_world"
  have n: "\<forall>k\<in>set (map fst [(''org_name'', Some ''Finance'')]). \<not> py_in ''_uid'' (lower k)"
    by code_simp
  have f: "fst ?r = Inr ()" by code_simp
  then have h: "?r = (Inr (), snd ?r)" by (metis prod.collapse)
  have k: "map fst two_uid_row = [''org_name'', ''a_uid'', ''b_uid'']"
    "\<not> py_in ''_uid'' (lower ''org_name'')"
    by code_simp+
  have v: "row_get two_uid_row ''a_uid'' = Some ''3fa85f64-5717-4562-b3fc-2c963f66afa6''"
    by code_simp
  have c: "namespaces example_config ''cim'' = Some ''http://iec.ch/TC57/2014/CIM-schema-cim16#''"
    and s: "stream example_world = []"
    by (simp_all add: example_config_def example_world_def)
  note t1 = add_role_structure_object_uid[of "[(''org_name'', Some ''Finance'')]" example_env
      example_config "''FOLDER''" True example_world, THEN conjunct1, THEN mp, OF n]
  note t2 = add_role_structure_object_uid[of two_uid_row example_env
      example_config "''FOLDER''" True example_world, THEN conjunct2, THEN spec, THEN mp, OF h]
  from t1 have p1: "isl (fst (add_role_structure example_env example_config
      [(''org_name'', Some ''Finance'')] ''FOLDER'' True example_world))" by auto
  have n0: "find_uid_field [(''org_name'', Some ''Finance'')] = None" by code_simp
  from t2 obtain before g after cim evs where
    b: "map fst two_uid_row = before @ g # after" "py_in ''_uid'' (lower g)"
       "\<forall>x\<in>set before. \<not> py_in ''_uid'' (lower x)"
    and cc: "namespaces example_config ''cim'' = Some cim"
    and st: "stream (snd ?r) = stream example_world @ evs"
    and tx: "text_of (clark cim ''ObjectReference.objectUid'') evs =
             Some (case row_get two_uid_row g of None \<Rightarrow> [] | Some v \<Rightarrow> v)"
    by blast
  have a: "py_in ''_uid'' (lower ''a_uid'')" by code_simp
  from b k a have g: "g = ''a_uid''"
    by (auto simp: append_eq_Cons_conv Cons_eq_append_conv)
  from tx g v cc c st s have "text_of (clark ''http://iec.ch/TC57/2014/CIM-schema-cim16#''
        ''ObjectReference.objectUid'') (stream (snd ?r))
       = Some ''3fa85f64-5717-4562-b3fc-2c963f66afa6''" by simp
  with n0 p1 f show ?thesis by blast
qed

text \<open>
  C2 as stated fails: the row has a field whose name contains \<open>uid\<close>, and the
  generation raises the ValueError of the missing object field.
\<close>

theorem add_role_structure_plain_uid_counterexample:
  "py_in ''uid'' (lower ''uid'')
   \<and> fst (add_role_structure example_env example_config
            [(''org_name'', Some ''Finance''),
             (''uid'', Some ''3fa85f64-5717-4562-b3fc-2c963f66afa6'')]
            ''FOLDER'' True example_world) = Inl ValueError"
  by code_simp

theorem add_role_structure_missing_placeholder_witness:
  "Field ''org_name'' [] \<in> set (role_template example_config) \<union> set (datagroup_template example_config)
   \<and> ''org_name'' \<notin> fst ` set no_org_row
   \<and> fst (add_role_structure example_env example_config no_org_row ''FOLDER'' True example_world)
       = Inl (KeyError ''org_name'')
   \<and> stream (snd (add_role_structure example_env example_config no_org_row ''FOLDER'' True
        example_world)) = []
   \<and> last (log (snd (add_role_structure example_env example_config no_org_row ''FOLDER'' True
        example_world))) = (ERROR, ''Template error: the data have no field org_name'')"
proof -
  let ?r = "add_role_structure example_env example_config no_org_row ''FOLDER'' True example_world"
  have a: "Field ''org_name'' [] \<in> set (role_template example_config) \<union> set (datagroup_template example_config)"
    by (simp add: example_config_def)
  have b: "''org_name'' \<notin> fst ` set no_org_row" by (simp add: no_org_row_def)
  have f: "fst ?r = Inl (KeyError ''org_name'')" by code_simp
  have s: "stream example_world = []" by (simp add: example_world_def)
  from add_role_structure_missing_placeholder[OF a b, of example_env "''FOLDER''" True example_world]
  obtain e w' where r: "?r = (Inl e, w')" and st: "stream w' = stream example_world"
    and k: "\<forall>k. e = KeyError k \<longrightarrow> True \<longrightarrow>
                last (log w') = (ERROR, ''Template error: the data have no field '' @ k)"
    by blast
  from r f have e: "e = KeyError ''org_name''" by simp
  with k have "last (log w') = (ERROR, ''Template error: the data have no field org_name'')"
    by auto
  with r st s a b f show ?thesis by simp
qed

text \<open>
  C7 as stated fails: the data group template refers to a field the row does not have,
  the role template has a positional field before it, and the IndexError of that field
  leaves the generation without an error entry in the log.
\<close>

theorem add_role_structure_positional_counterexample:
  "Field ''missing'' [] \<in> set (datagroup_template positional_config)
   \<and> ''missing'' \<notin> fst ` set finance_row
   \<and> fst (add_role_structure example_env positional_config finance_row ''FOLDER'' True
            example_world) = Inl IndexError
   \<and> ERROR \<notin> fst ` set (log (snd (add_role_structure example_env positional_config finance_row
            ''FOLDER'' True example_world)))"
  by code_simp

section \<open>Properties of the indentation pass\<close>


lemma indentation_whitespace: "\<not> has_non_whitespace (indentation level)"
  by (auto simp: has_non_whitespace_def indentation_def py_isspace_def)

lemma set_tail_idem: "set_tail (indentation l) (set_tail (indentation l) c) = set_tail (indentation l) c"
  by (cases c) (simp add: indentation_whitespace)

lemma set_tails_Nil: "set_tails level cs = [] \<longleftrightarrow> cs = []"
  by (induction level cs rule: set_tails.induct) simp_all

lemma set_tails_idem: "set_tails level (set_tails level cs) = set_tails level cs"
proof (induction level cs rule: set_tails.induct)
  case (1 level)
  then show ?case by simp
next
  case (2 level c)
  then show ?case by (simp add: set_tail_idem)
next
  case (3 level c c' cs)
  obtain x xs where x: "set_tails level (c' # cs) = x # xs"
    using set_tails_Nil[of level "c' # cs"] by (cases "set_tails level (c' # cs)") auto
  with 3 show ?case by (simp add: set_tail_idem)
qed

lemma indent_children_set_tail:
  "indent_children l (set_tail ind c) = set_tail ind (indent_children l c)"
  by (cases c) simp

lemma map_set_tails:
  "(\<And>c ind. f (set_tail ind c) = set_tail ind (f c)) \<Longrightarrow>
   map f (set_tails level cs) = set_tails level (map f cs)"
  by (induction level cs rule: set_tails.induct) simp_all

lemma indent_children_idem:
  "indent_children level (indent_children level t) = indent_children level t"
proof (induction t arbitrary: level)
  case (Elem tg ats tx cs tls)
  show ?case
  proof (cases "cs = []")
    case True
    then show ?thesis by simp
  next
    case False
    have m: "map (indent_children (Suc level)) (map (indent_children (Suc level)) cs)
             = map (indent_children (Suc level)) cs"
      using Elem.IH by (induction cs) simp_all
    have "map (indent_children (Suc level))
            (set_tails level (map (indent_children (Suc level)) cs))
          = set_tails level (map (indent_children (Suc level))
              (map (indent_children (Suc level)) cs))"
      by (rule map_set_tails) (simp add: indent_children_set_tail)
    then have "map (indent_children (Suc level))
            (set_tails level (map (indent_children (Suc level)) cs))
          = set_tails level (map (indent_children (Suc level)) cs)"
      by (simp only: m)
    then show ?thesis
      using False by (simp add: set_tails_Nil set_tails_idem indentation_whitespace)
  qed
qed

lemma indent_idem: "indent (indent t) = indent t"
  by (simp add: indent_def indent_children_idem)


lemma add_text_add_child:
  "add_text s (add_child (Elem tg ats tx cs []) p) = add_child (Elem tg ats tx cs s) p"
  by (cases p) simp

lemma parse_text_ev_tail:
  "\<not> starts_with_text rest \<Longrightarrow>
   parse_events (add_child (Elem tg ats tx cs []) p # stack) (text_ev tls @ rest) =
   parse_events (add_child (Elem tg ats tx cs tls) p # stack) rest"
  by (cases p) (simp add: text_ev_def)

lemma parse_text_ev_text:
  "parse_events (Elem tg ats [] [] [] # stack) (text_ev tx @ rest) =
   parse_events (Elem tg ats tx [] [] # stack) rest"
  if "tx = [] \<or> \<not> starts_with_text rest"
  using that by (auto simp: text_ev_def)

lemma write_tree_not_text: "\<not> starts_with_text (write_tree c @ rest)"
  by (cases c) simp

lemma parse_children:
  assumes "\<And>c p stack rest. c \<in> set cs \<Longrightarrow> \<not> starts_with_text rest \<Longrightarrow>
             parse_events (p # stack) (write_tree c @ rest) =
             parse_events (add_child c p # stack) rest"
    and "\<not> starts_with_text rest"
  shows "parse_events (Elem tg ats tx cs0 tls # stack) (concat (map write_tree cs) @ rest) =
         parse_events (Elem tg ats tx (cs0 @ cs) tls # stack) rest"
  using assms
proof (induction cs arbitrary: cs0)
  case Nil
  then show ?case by simp
next
  case (Cons c cs)
  have nt: "\<not> starts_with_text (concat (map write_tree cs) @ rest)"
    using Cons.prems(2) by (cases cs) (simp_all add: write_tree_not_text)
  have "parse_events (Elem tg ats tx cs0 tls # stack)
          (write_tree c @ concat (map write_tree cs) @ rest) =
        parse_events (add_child c (Elem tg ats tx cs0 tls) # stack)
          (concat (map write_tree cs) @ rest)"
    using Cons.prems(1)[of c, OF _ nt] by simp
  also have "\<dots> = parse_events (Elem tg ats tx ((cs0 @ [c]) @ cs) tls # stack) rest"
    using Cons.IH[of "cs0 @ [c]"] Cons.prems by simp
  finally show ?case by simp
qed

lemma parse_write_tree:
  "\<not> starts_with_text rest \<Longrightarrow>
   parse_events (p # stack) (write_tree c @ rest) = parse_events (add_child c p # stack) rest"
proof (induction c arbitrary: p stack rest)
  case (Elem tg ats tx cs tls)
  have nt: "\<not> starts_with_text (concat (map write_tree cs) @ End tg # text_ev tls @ rest)"
    by (cases cs) (simp_all add: write_tree_not_text)
  have "parse_events (p # stack) (write_tree (Elem tg ats tx cs tls) @ rest) =
        parse_events (Elem tg ats [] [] [] # p # stack)
          (text_ev tx @ concat (map write_tree cs) @ End tg # text_ev tls @ rest)"
    by simp
  also have "\<dots> = parse_events (Elem tg ats tx [] [] # p # stack)
          (concat (map write_tree cs) @ End tg # text_ev tls @ rest)"
    using parse_text_ev_text[of tx "concat (map write_tree cs) @ End tg # text_ev tls @ rest"] nt
    by simp
  also have "\<dots> = parse_events (Elem tg ats tx ([] @ cs) [] # p # stack)
          (End tg # text_ev tls @ rest)"
    using parse_children[of cs "End tg # text_ev tls @ rest" tg ats tx "[]" "[]" "p # stack"]
      Elem.IH by simp
  also have "\<dots> = parse_events (add_child (Elem tg ats tx cs []) p # stack) (text_ev tls @ rest)"
    by simp
  also have "\<dots> = parse_events (add_child (Elem tg ats tx cs tls) p # stack) rest"
    using parse_text_ev_tail[OF Elem.prems] by simp
  finally show ?case .
qed

lemma parse_write_root:
  "parse_events [] (write_tree (Elem tg ats tx cs [])) = Some (Elem tg ats tx cs [])"
proof -
  have nt: "\<not> starts_with_text (concat (map write_tree cs) @ [End tg])"
    by (cases cs) (simp_all add: write_tree_not_text)
  have "parse_events [] (write_tree (Elem tg ats tx cs [])) =
        parse_events [Elem tg ats [] [] []] (text_ev tx @ concat (map write_tree cs) @ [End tg])"
    by (simp add: text_ev_def)
  also have "\<dots> = parse_events [Elem tg ats tx [] []] (concat (map write_tree cs) @ [End tg])"
    using parse_text_ev_text[of tx "concat (map write_tree cs) @ [End tg]"] nt by simp
  also have "\<dots> = parse_events [Elem tg ats tx ([] @ cs) []] [End tg]"
    using parse_children[of cs "[End tg]" tg ats tx "[]" "[]" "[]"] parse_write_tree by simp
  finally show ?thesis by simp
qed

lemma add_text_tail: "elem_tail (add_text s c) = elem_tail c"
  by (cases c) simp

lemma add_child_tail: "elem_tail (add_child c p) = elem_tail p"
  by (cases p) simp

lemma parse_events_tail:
  "parse_events stack evs = Some t \<Longrightarrow> \<forall>fr\<in>set stack. elem_tail fr = [] \<Longrightarrow> elem_tail t = []"
  by (induction stack evs rule: parse_events.induct)
     (auto simp: add_text_tail add_child_tail split: if_splits)

lemma indent_tail: "elem_tail (indent t) = elem_tail t"
  by (cases t) (simp add: indent_def)

lemma parse_write_indent:
  assumes "parse_events [] evs = Some t"
  shows "parse_events [] (write_tree (indent t)) = Some (indent t)"
proof -
  have "elem_tail (indent t) = []"
    using parse_events_tail[OF assms] by (simp add: indent_tail)
  then show ?thesis
    using parse_write_root by (cases "indent t") auto
qed

text \<open>
  C9: the indentation pass is idempotent. When it succeeds on a file, that is when the
  file parses as one well-nested element, running it again on its own output succeeds
  and leaves the file, and everything else, as it is.
\<close>

theorem format_xml_pretty_idempotent:
  assumes "format_xml_pretty file_path w = (Inr (), w')"
  shows "format_xml_pretty file_path w' = (Inr (), w')"
proof -
  from assms obtain evs t where o: "outputs w file_path = Some evs"
    and p: "parse_events [] evs = Some t"
    and w': "w' = w\<lparr>outputs := (outputs w)(file_path \<mapsto> write_tree (indent t))\<rparr>"
    by (auto simp: format_xml_pretty_def split: option.splits)
  have "outputs w' file_path = Some (write_tree (indent t))" by (simp add: w')
  moreover have "w'\<lparr>outputs := (outputs w')(file_path \<mapsto> write_tree (indent t))\<rparr> = w'"
    by (simp add: w')
  ultimately show ?thesis
    by (simp add: format_xml_pretty_def parse_write_indent[OF p] indent_idem)
qed


theorem format_xml_pretty_idempotent_witness:
  "fst (format_xml_pretty ''/data/small.xml'' small_document) = Inr ()
   \<and> outputs (snd (format_xml_pretty ''/data/small.xml'' small_document)) ''/data/small.xml'' =
       Some [Start ''a'' [], Text [CHR 0x0A, CHR '' '', CHR '' ''],
             Start ''b'' [], Text ''x'', End ''b'', Text [CHR 0x0A, CHR '' '', CHR '' ''],
             Start ''c'' [], End ''c'', Text [CHR 0x0A], End ''a'']
   \<and> format_xml_pretty ''/data/small.xml''
         (snd (format_xml_pretty ''/data/small.xml'' small_document)) =
       (Inr (), snd (format_xml_pretty ''/data/small.xml'' small_document))"
proof -
  let ?r = "format_xml_pretty ''/data/small.xml'' small_document"
  have f: "fst ?r = Inr ()" by code_simp
  then have h: "?r = (Inr (), snd ?r)" by (metis prod.collapse)
  have o: "outputs (snd ?r) ''/data/small.xml'' =
       Some [Start ''a'' [], Text [CHR 0x0A, CHR '' '', CHR '' ''],
             Start ''b'' [], Text ''x'', End ''b'', Text [CHR 0x0A, CHR '' '', CHR '' ''],
             Start ''c'' [], End ''c'', Text [CHR 0x0A], End ''a'']"
    by code_simp
  from format_xml_pretty_idempotent[OF h] f o show ?thesis by simp
qed

section \<open>Properties of the batch\<close>



































end
